theory Spec2Isabelle
  imports Main
begin

section \<open>Values, errors and the data model of \<^verbatim>\<open>audit_trail/watcher.py\<close>\<close>

text \<open>
  Field values as the watcher meets them: \<^verbatim>\<open>None\<close>, integers (primary keys, choice
  keys), strings, and the not-a-number of a float or decimal field, the one value that
  Python's \<^verbatim>\<open>!=\<close> tells apart from itself. A snapshot is the dict built by
  \<^verbatim>\<open>serialize_object\<close>; a missing key is \<open>None\<close> of the map, read by
  \<^verbatim>\<open>dict.get(name, None)\<close> as \<open>PNone\<close>.
\<close>

datatype pyval = PNone | PInt int | PStr string | PNaN

text \<open>Python's \<^verbatim>\<open>a != b\<close> on these values.\<close>

definition py_ne :: "pyval \<Rightarrow> pyval \<Rightarrow> bool" where
  "py_ne a b = (a \<noteq> b \<or> a = PNaN)"

datatype error = DoesNotExist | FieldDoesNotExist | ValueError | TypeError | AttributeError

type_synonym snapshot = "string \<rightharpoonup> pyval"

record field_change =
  old_value :: pyval
  new_value :: pyval

type_synonym changeset = "string \<rightharpoonup> field_change"

text \<open>
  A field of a model: its name, its \<^verbatim>\<open>attname\<close> (the name followed by \<^verbatim>\<open>_id\<close> for a
  foreign key, the name itself otherwise), whether it is a \<^verbatim>\<open>ForeignKey\<close>, and its flat
  \<^verbatim>\<open>choices\<close> (empty when the field has none).
\<close>

record field =
  name :: string
  attname :: string
  is_foreign_key :: bool
  choices :: "(pyval \<times> string) list"

text \<open>
  The model class a watcher is attached to, as far as diffing reads it:
  \<^item> \<open>meta_fields\<close>, the concrete fields \<^verbatim>\<open>_meta.fields\<close> enumerates, which are also the
    fields whose name or attname the constructor of the model takes as a keyword;
  \<^item> \<open>many_to_many\<close>, the many-to-many fields, which \<^verbatim>\<open>_meta.get_field\<close> resolves as well;
  \<^item> \<open>relation_names\<close>, the names \<^verbatim>\<open>_meta.get_field\<close> resolves to a reverse relation or
    another relation object, which is no \<^verbatim>\<open>ForeignKey\<close> and has no \<^verbatim>\<open>choices\<close>;
  \<^item> \<open>related_unicode\<close>, the outcome of
    \<^verbatim>\<open>unicode(getattr(self.model_class(**{'<f>_id': value}), f))\<close> for a name \<open>f\<close> and an
    integer \<open>value\<close>: the display string of the row the foreign key points at, or the
    exception raised, \<^verbatim>\<open>DoesNotExist\<close> when the store has no row of that id.
  Names and attnames of different fields do not clash (Django's check \<^verbatim>\<open>models.E006\<close>).
\<close>

record model =
  meta_fields :: "field list"
  many_to_many :: "field list"
  relation_names :: "string list"
  related_unicode :: "string \<Rightarrow> int \<Rightarrow> error + string"

text \<open>The watcher object: the attributes \<^verbatim>\<open>__init__\<close> assigns.\<close>

record watcher =
  model_class :: "string option"
  fields' :: "string list option"
  notify_related :: "string list option"
  track_related :: "string list option"
  track_only_with_related :: bool
  excluded_fields :: "string list"

text \<open>
  \<^verbatim>\<open>AuditTrailWatcher.__init__\<close>: \<^verbatim>\<open>excluded_fields\<close> starts as \<^verbatim>\<open>['id']\<close> and is extended
  only when the argument is truthy (neither \<^verbatim>\<open>None\<close> nor empty).
\<close>

definition AuditTrailWatcher ::
  "string list option \<Rightarrow> string list option \<Rightarrow> string list option \<Rightarrow> bool \<Rightarrow>
   string list option \<Rightarrow> watcher" where
  "AuditTrailWatcher flds track notify only_with_related excluded =
     \<lparr> model_class = None,
       fields' = flds,
       notify_related = notify,
       track_related = track,
       track_only_with_related = only_with_related,
       excluded_fields =
         (case excluded of
            None \<Rightarrow> [''id'']
          | Some [] \<Rightarrow> [''id'']
          | Some es \<Rightarrow> [''id''] @ es) \<rparr>"

section \<open>Rendering of values\<close>

text \<open>Decimal text of an integer, as \<^verbatim>\<open>'%d'\<close> and \<^verbatim>\<open>unicode(int)\<close> print it.\<close>

fun string_of_nat :: "nat \<Rightarrow> string" where
  "string_of_nat n =
     (if n < 10 then [''0123456789'' ! n]
      else string_of_nat (n div 10) @ [''0123456789'' ! (n mod 10)])"

declare string_of_nat.simps [simp del]

definition string_of_int :: "int \<Rightarrow> string" where
  "string_of_int i = (if i < 0 then ''-'' @ string_of_nat (nat (- i)) else string_of_nat (nat i))"

definition unicode :: "pyval \<Rightarrow> string" where
  "unicode v =
     (case v of PNone \<Rightarrow> ''None'' | PInt i \<Rightarrow> string_of_int i | PStr s \<Rightarrow> s | PNaN \<Rightarrow> ''nan'')"

text \<open>
  \<^verbatim>\<open>int(value)\<close>: an integer is itself; a string is stripped of surrounding white space
  and read as an optionally signed run of decimal digits, \<^verbatim>\<open>ValueError\<close> otherwise;
  \<^verbatim>\<open>int(None)\<close> is a \<^verbatim>\<open>TypeError\<close> and the \<^verbatim>\<open>int\<close> of a not-a-number a \<^verbatim>\<open>ValueError\<close>.
\<close>

definition is_space :: "char \<Rightarrow> bool" where
  "is_space c = (c \<in> set [CHR '' '', CHR 0x09, CHR 0x0A, CHR 0x0B, CHR 0x0C, CHR 0x0D])"

definition strip :: "string \<Rightarrow> string" where
  "strip s = rev (dropWhile is_space (rev (dropWhile is_space s)))"

definition digit_value :: "char \<Rightarrow> nat option" where
  "digit_value c =
     (if c \<in> set ''0123456789''
      then Some (length (takeWhile (\<lambda>d. d \<noteq> c) ''0123456789''))
      else None)"

fun digits_value :: "nat \<Rightarrow> string \<Rightarrow> nat option" where
  "digits_value acc [] = Some acc"
| "digits_value acc (c # cs) =
     (case digit_value c of
        None \<Rightarrow> None
      | Some d \<Rightarrow> digits_value (10 * acc + d) cs)"

definition int_of_string :: "string \<Rightarrow> error + int" where
  "int_of_string s =
     (let t = strip s;
          neg = (t \<noteq> [] \<and> hd t = CHR ''-'');
          body = (if t \<noteq> [] \<and> (hd t = CHR ''-'' \<or> hd t = CHR ''+'') then tl t else t)
      in if body = [] then Inl ValueError
         else (case digits_value 0 body of
                 None \<Rightarrow> Inl ValueError
               | Some n \<Rightarrow> Inr (if neg then - int n else int n)))"

definition py_int :: "pyval \<Rightarrow> error + int" where
  "py_int v =
     (case v of
        PNone \<Rightarrow> Inl TypeError
      | PInt i \<Rightarrow> Inr i
      | PStr s \<Rightarrow> int_of_string s
      | PNaN \<Rightarrow> Inl ValueError)"

text \<open>
  \<^verbatim>\<open>get_fk_value\<close>: \<^verbatim>\<open>None\<close> stays \<^verbatim>\<open>None\<close>; otherwise the id is converted with
  \<^verbatim>\<open>int\<close>, the referenced row is fetched and printed as \<^verbatim>\<open>'[#%d] %s'\<close>. Nothing catches
  an exception of the fetch, such as the \<^verbatim>\<open>DoesNotExist\<close> of a missing row.
\<close>

definition get_fk_value :: "model \<Rightarrow> string \<Rightarrow> pyval \<Rightarrow> error + pyval" where
  "get_fk_value cls field_name v =
     (if v = PNone then Inr PNone
      else (case py_int v of
              Inl e \<Rightarrow> Inl e
            | Inr i \<Rightarrow>
                (case related_unicode cls field_name i of
                   Inl e \<Rightarrow> Inl e
                 | Inr s \<Rightarrow> Inr (PStr (''[#'' @ string_of_int i @ ''] '' @ s)))))"

text \<open>
  \<^verbatim>\<open>get_<field>_display()\<close>: the label that \<^verbatim>\<open>dict(field.flatchoices)\<close> holds for the
  value, where the last pair of a repeated key wins and a not-a-number finds no key, or
  the value itself when it is outside the choices.
\<close>

definition get_display :: "field \<Rightarrow> pyval \<Rightarrow> string" where
  "get_display f v =
     (case (if v = PNaN then None else map_of (rev (choices f)) v) of
        None \<Rightarrow> unicode v
      | Some lbl \<Rightarrow> lbl)"

text \<open>The keywords the constructor of the model takes: names and attnames of its concrete fields.\<close>

definition init_keywords :: "model \<Rightarrow> string set" where
  "init_keywords cls = set (map name (meta_fields cls)) \<union> set (map attname (meta_fields cls))"

text \<open>
  \<^verbatim>\<open>get_choice_value\<close>, for the field \<open>f\<close> that \<^verbatim>\<open>get_field(field_name)\<close> returned:
  \<^verbatim>\<open>None\<close> stays \<^verbatim>\<open>None\<close>; otherwise \<^verbatim>\<open>self.model_class(**{field_name: value})\<close> is built
  and \<^verbatim>\<open>get_<field_name>_display()\<close> is printed after the raw value. The constructor
  raises \<^verbatim>\<open>TypeError\<close> for a keyword it does not know (a many-to-many field) and
  \<^verbatim>\<open>ValueError\<close> when a value that is no model instance is assigned to a foreign key by
  its name; a field reached through its attname has no display method under that name.
\<close>

definition get_choice_value :: "model \<Rightarrow> field \<Rightarrow> string \<Rightarrow> pyval \<Rightarrow> error + pyval" where
  "get_choice_value cls f field_name v =
     (if v = PNone then Inr PNone
      else if field_name \<notin> init_keywords cls then Inl TypeError
      else if name f \<noteq> field_name then Inl AttributeError
      else if is_foreign_key f then Inl ValueError
      else Inr (PStr (''[#'' @ unicode v @ ''] '' @ get_display f v)))"

section \<open>Snapshots and the differ\<close>

text \<open>
  \<^verbatim>\<open>serialize_object\<close>: one entry per declared field that is tracked (\<^verbatim>\<open>self.fields\<close> is
  \<^verbatim>\<open>None\<close> or holds the name) and not excluded. \<open>vals\<close> is
  \<^verbatim>\<open>field.value_from_object(instance)\<close> by field name.
\<close>

fun serialize_fields :: "watcher \<Rightarrow> (string \<Rightarrow> pyval) \<Rightarrow> field list \<Rightarrow> snapshot \<Rightarrow> snapshot" where
  "serialize_fields w vals [] data = data"
| "serialize_fields w vals (f # fs) data =
     (let not_tracked_field =
            (case fields' w of None \<Rightarrow> False | Some tracked \<Rightarrow> name f \<notin> set tracked)
      in if not_tracked_field \<or> name f \<in> set (excluded_fields w)
         then serialize_fields w vals fs data
         else serialize_fields w vals fs (data(name f \<mapsto> vals (name f))))"

definition serialize_object :: "watcher \<Rightarrow> model \<Rightarrow> (string \<Rightarrow> pyval) \<Rightarrow> snapshot" where
  "serialize_object w cls vals = serialize_fields w vals (meta_fields cls) Map.empty"

text \<open>
  \<^verbatim>\<open>_meta.get_field(name)\<close>: the forward field (concrete or many-to-many) registered
  under that name or attname, a later field replacing an earlier one under the same key;
  failing that the relation object of that name; failing that \<^verbatim>\<open>FieldDoesNotExist\<close>.
\<close>

datatype resolved_field = ForwardField field | RelationObject

definition get_field :: "model \<Rightarrow> string \<Rightarrow> error + resolved_field" where
  "get_field cls field_name =
     (case find (\<lambda>f. name f = field_name \<or> attname f = field_name)
                (rev (meta_fields cls @ many_to_many cls)) of
        Some f \<Rightarrow> Inr (ForwardField f)
      | None \<Rightarrow>
          (if field_name \<in> set (relation_names cls) then Inr RelationObject
           else Inl FieldDoesNotExist))"

text \<open>\<^verbatim>\<open>isinstance(field, ForeignKey)\<close> and \<^verbatim>\<open>field.choices\<close> on what \<^verbatim>\<open>get_field\<close> returned.\<close>

definition is_ForeignKey :: "resolved_field \<Rightarrow> bool" where
  "is_ForeignKey r = (case r of ForwardField f \<Rightarrow> is_foreign_key f | RelationObject \<Rightarrow> False)"

definition field_choices :: "resolved_field \<Rightarrow> error + field" where
  "field_choices r = (case r of ForwardField f \<Rightarrow> Inr f | RelationObject \<Rightarrow> Inl AttributeError)"

text \<open>
  The list \<^verbatim>\<open>get_changes\<close> iterates: \<^verbatim>\<open>self.fields or [all declared names]\<close>, so an
  empty tracked list counts as unset.
\<close>

definition diff_fields :: "watcher \<Rightarrow> model \<Rightarrow> string list" where
  "diff_fields w cls =
     (case fields' w of
        None \<Rightarrow> map name (meta_fields cls)
      | Some [] \<Rightarrow> map name (meta_fields cls)
      | Some fs \<Rightarrow> fs)"

text \<open>
  The body of the loop of \<^verbatim>\<open>get_changes\<close> for one field name, in the order of the
  source: look both values up, fetch the field, render both through the foreign key
  rule, read \<^verbatim>\<open>field.choices\<close>, render both through the choice rule, and compare with
  \<^verbatim>\<open>!=\<close>. \<open>Inr None\<close> is "no change".
\<close>

definition snapshot_get :: "snapshot \<Rightarrow> string \<Rightarrow> pyval" where
  "snapshot_get s k = (case s k of None \<Rightarrow> PNone | Some v \<Rightarrow> v)"

definition diff_field ::
  "model \<Rightarrow> snapshot \<Rightarrow> snapshot \<Rightarrow> string \<Rightarrow> error + field_change option" where
  "diff_field cls old_values new_values field_name =
     (case get_field cls field_name of
        Inl e \<Rightarrow> Inl e
      | Inr r \<Rightarrow>
          (case (if is_ForeignKey r
                 then (case get_fk_value cls field_name (snapshot_get old_values field_name) of
                         Inl e \<Rightarrow> Inl e
                       | Inr ov \<Rightarrow>
                           (case get_fk_value cls field_name (snapshot_get new_values field_name) of
                              Inl e \<Rightarrow> Inl e
                            | Inr nv \<Rightarrow> Inr (ov, nv)))
                 else Inr (snapshot_get old_values field_name, snapshot_get new_values field_name)) of
             Inl e \<Rightarrow> Inl e
           | Inr (ov, nv) \<Rightarrow>
               (case field_choices r of
                  Inl e \<Rightarrow> Inl e
                | Inr f \<Rightarrow>
                    (case (if choices f \<noteq> []
                           then (case get_choice_value cls f field_name ov of
                                   Inl e \<Rightarrow> Inl e
                                 | Inr ov' \<Rightarrow>
                                     (case get_choice_value cls f field_name nv of
                                        Inl e \<Rightarrow> Inl e
                                      | Inr nv' \<Rightarrow> Inr (ov', nv')))
                           else Inr (ov, nv)) of
                       Inl e \<Rightarrow> Inl e
                     | Inr (ov', nv') \<Rightarrow>
                         Inr (if py_ne ov' nv'
                              then Some \<lparr> old_value = ov', new_value = nv' \<rparr>
                              else None)))))"

fun get_changes_loop ::
  "model \<Rightarrow> snapshot \<Rightarrow> snapshot \<Rightarrow> string list \<Rightarrow> changeset \<Rightarrow> error + changeset" where
  "get_changes_loop cls old_values new_values [] diff = Inr diff"
| "get_changes_loop cls old_values new_values (field_name # rest) diff =
     (case diff_field cls old_values new_values field_name of
        Inl e \<Rightarrow> Inl e
      | Inr None \<Rightarrow> get_changes_loop cls old_values new_values rest diff
      | Inr (Some c) \<Rightarrow> get_changes_loop cls old_values new_values rest (diff(field_name \<mapsto> c)))"

text \<open>
  \<^verbatim>\<open>get_changes(old_values, new_values)\<close>; both arguments may be \<^verbatim>\<open>None\<close>
  (\<^verbatim>\<open>old_values or {}\<close>).
\<close>

definition get_changes :: "watcher \<Rightarrow> model \<Rightarrow> snapshot option \<Rightarrow> snapshot option \<Rightarrow> error + changeset" where
  "get_changes w cls old_values new_values =
     get_changes_loop cls
       (case old_values of None \<Rightarrow> Map.empty | Some s \<Rightarrow> s)
       (case new_values of None \<Rightarrow> Map.empty | Some s \<Rightarrow> s)
       (diff_fields w cls) Map.empty"

section \<open>Instances, history records and the store\<close>

datatype action = Created | Updated | Deleted | RelatedChange

type_synonym obj_ref = "string \<times> int"

text \<open>
  What \<^verbatim>\<open>getattr(instance, field_name)\<close> yields for a relation name: \<^verbatim>\<open>None\<close>, a related
  model instance (it has \<^verbatim>\<open>_meta\<close>), or a related manager (it has not). A manager is
  given by the label of the related model, the ids its live query \<^verbatim>\<open>.all()\<close> returns, and
  the ids of the rows now in the related table: after
  \<^verbatim>\<open>core_filters = {'id__in': ids}\<close> its \<^verbatim>\<open>.all()\<close> returns the rows of the table whose id
  is among \<open>ids\<close>.
\<close>

datatype attr_value =
    IsNone
  | RelatedObject obj_ref
  | RelatedManager string "int list" "int list"

text \<open>
  A model instance: its identity, \<^verbatim>\<open>field.value_from_object\<close> by field name, its relation
  attributes (a name outside the map is a missing attribute), and the two attributes the
  watcher attaches, \<open>None\<close> while they are not set.
\<close>

record model_instance =
  ref :: obj_ref
  vals :: "string \<Rightarrow> pyval"
  attrs :: "string \<rightharpoonup> attr_value"
  original_values :: "snapshot option"
  audit_ids_to_notify_related_deletion :: "(string \<rightharpoonup> int list) option"

record audit_trail =
  content_object :: obj_ref
  action :: action
  changes :: changeset
  related_trail :: "nat option"

text \<open>
  Modelled from the spec: the manager methods \<^verbatim>\<open>generate_trail_for_instance_created\<close>,
  \<^verbatim>\<open>_updated\<close>, \<^verbatim>\<open>_deleted\<close> and \<^verbatim>\<open>generate_trail_for_related_change\<close> of \<^verbatim>\<open>AuditTrail\<close>
  and its \<^verbatim>\<open>save()\<close> live in \<^verbatim>\<open>audit_trail/models.py\<close>, which is not among the sources.
  After the spec's HistoryRecord and its rule that identity events are recorded
  unconditionally, the manager stores the record it generates at once: a new row of the
  history, the position of which is its id, that names the subject and the event kind
  and has no changes and no related record yet. \<^verbatim>\<open>save()\<close> on the record returned
  writes the record as it stands then over that row.
\<close>

definition generate_trail ::
  "action \<Rightarrow> obj_ref \<Rightarrow> audit_trail list \<Rightarrow> (nat \<times> audit_trail) \<times> audit_trail list" where
  "generate_trail a obj store =
     (let t = \<lparr> content_object = obj, action = a, changes = Map.empty, related_trail = None \<rparr>
      in ((length store, t), store @ [t]))"

definition save :: "nat \<Rightarrow> audit_trail \<Rightarrow> audit_trail list \<Rightarrow> audit_trail list" where
  "save tid t store = store[tid := t]"

text \<open>The process-wide setting and the persisted history.\<close>

record world =
  DISABLE_AUDIT_TRAIL :: bool
  saved :: "audit_trail list"

text \<open>
  What a hook leaves behind: the exception it raised if any, the instance and the
  persisted history at that point.
\<close>

record outcome =
  raised :: "error option"
  inst :: model_instance
  trails :: "audit_trail list"

section \<open>The parent gate and the cascades\<close>

text \<open>
  \<^verbatim>\<open>is_parent_object_exists\<close>: the loop over \<^verbatim>\<open>self.notify_related\<close>; iterating \<^verbatim>\<open>None\<close>
  is a \<^verbatim>\<open>TypeError\<close>.
\<close>

fun parent_loop :: "model_instance \<Rightarrow> string list \<Rightarrow> bool" where
  "parent_loop i [] = False"
| "parent_loop i (field_name # rest) =
     (case attrs i field_name of
        None \<Rightarrow> parent_loop i rest
      | Some IsNone \<Rightarrow> parent_loop i rest
      | Some (RelatedObject obj) \<Rightarrow> True
      | Some (RelatedManager m live table) \<Rightarrow>
          (if live \<noteq> [] then True
           else if field_name \<in> dom (case audit_ids_to_notify_related_deletion i of
                                        None \<Rightarrow> Map.empty | Some ids \<Rightarrow> ids)
           then True
           else parent_loop i rest))"

definition is_parent_object_exists :: "watcher \<Rightarrow> model_instance \<Rightarrow> error + bool" where
  "is_parent_object_exists w i =
     (case notify_related w of
        None \<Rightarrow> Inl TypeError
      | Some ns \<Rightarrow> Inr (parent_loop i ns))"

text \<open>
  The inner loop of both cascades: one \<^verbatim>\<open>RelatedChange\<close> record per notified object is
  generated, pointed at the triggering record and saved.
\<close>

fun notify_objects :: "nat \<Rightarrow> obj_ref list \<Rightarrow> audit_trail list \<Rightarrow> audit_trail list" where
  "notify_objects tid [] store = store"
| "notify_objects tid (notified_object # rest) store =
     (let ((pid, parent_audit_trail), store1) = generate_trail RelatedChange notified_object store
      in notify_objects tid rest
           (save pid (parent_audit_trail\<lparr> related_trail := Some tid \<rparr>) store1))"

text \<open>
  \<^verbatim>\<open>create_related_audit_trail\<close>. \<open>i\<close> is \<^verbatim>\<open>audit_trail.content_object\<close>, the instance the
  saved record \<open>tid\<close> is about; \<^verbatim>\<open>getattr\<close> has no default here.
\<close>

fun create_related_loop ::
  "model_instance \<Rightarrow> nat \<Rightarrow> string list \<Rightarrow> audit_trail list \<Rightarrow> error option \<times> audit_trail list" where
  "create_related_loop i tid [] store = (None, store)"
| "create_related_loop i tid (field_name # rest) store =
     (case attrs i field_name of
        None \<Rightarrow> (Some AttributeError, store)
      | Some IsNone \<Rightarrow> create_related_loop i tid rest store
      | Some (RelatedObject obj) \<Rightarrow>
          create_related_loop i tid rest (notify_objects tid [obj] store)
      | Some (RelatedManager m live table) \<Rightarrow>
          create_related_loop i tid rest (notify_objects tid (map (Pair m) live) store))"

definition create_related_audit_trail ::
  "watcher \<Rightarrow> model_instance \<Rightarrow> nat \<Rightarrow> audit_trail list \<Rightarrow> error option \<times> audit_trail list" where
  "create_related_audit_trail w i tid store =
     (case notify_related w of
        None \<Rightarrow> (None, store)
      | Some [] \<Rightarrow> (None, store)
      | Some ns \<Rightarrow> create_related_loop i tid ns store)"

text \<open>
  \<^verbatim>\<open>create_deleted_related_audit_trail\<close>: a manager is asked for the rows whose id was
  captured before the delete; reading the capture of an instance that has none is an
  \<^verbatim>\<open>AttributeError\<close>.
\<close>

fun create_deleted_related_loop ::
  "model_instance \<Rightarrow> nat \<Rightarrow> string list \<Rightarrow> audit_trail list \<Rightarrow> error option \<times> audit_trail list" where
  "create_deleted_related_loop i tid [] store = (None, store)"
| "create_deleted_related_loop i tid (field_name # rest) store =
     (case attrs i field_name of
        None \<Rightarrow> (Some AttributeError, store)
      | Some IsNone \<Rightarrow> create_deleted_related_loop i tid rest store
      | Some (RelatedObject obj) \<Rightarrow>
          create_deleted_related_loop i tid rest (notify_objects tid [obj] store)
      | Some (RelatedManager m live table) \<Rightarrow>
          (case audit_ids_to_notify_related_deletion i of
             None \<Rightarrow> (Some AttributeError, store)
           | Some captured \<Rightarrow>
               (case captured field_name of
                  None \<Rightarrow> create_deleted_related_loop i tid rest store
                | Some [] \<Rightarrow> create_deleted_related_loop i tid rest store
                | Some ids \<Rightarrow>
                    create_deleted_related_loop i tid rest
                      (notify_objects tid
                         (map (Pair m) (filter (\<lambda>r. r \<in> set ids) table)) store))))"

definition create_deleted_related_audit_trail ::
  "watcher \<Rightarrow> model_instance \<Rightarrow> nat \<Rightarrow> audit_trail list \<Rightarrow> error option \<times> audit_trail list" where
  "create_deleted_related_audit_trail w i tid store =
     (case notify_related w of
        None \<Rightarrow> (None, store)
      | Some [] \<Rightarrow> (None, store)
      | Some ns \<Rightarrow> create_deleted_related_loop i tid ns store)"

section \<open>The lifecycle hooks\<close>

text \<open>\<^verbatim>\<open>on_post_init\<close> stores the snapshot; it reads no setting.\<close>

definition on_post_init :: "watcher \<Rightarrow> model \<Rightarrow> model_instance \<Rightarrow> world \<Rightarrow> outcome" where
  "on_post_init w cls i st =
     \<lparr> raised = None,
       inst = i\<lparr> original_values := Some (serialize_object w cls (vals i)) \<rparr>,
       trails = saved st \<rparr>"

text \<open>
  \<^verbatim>\<open>self.track_only_with_related and not self.is_parent_object_exists(instance)\<close>: the right
  operand is evaluated only when the left one holds.
\<close>

definition skip_without_parent :: "watcher \<Rightarrow> model_instance \<Rightarrow> error + bool" where
  "skip_without_parent w i =
     (if track_only_with_related w
      then (case is_parent_object_exists w i of Inl e \<Rightarrow> Inl e | Inr b \<Rightarrow> Inr (\<not> b))
      else Inr False)"

definition unchanged :: "error option \<Rightarrow> model_instance \<Rightarrow> world \<Rightarrow> outcome" where
  "unchanged e i st = \<lparr> raised = e, inst = i, trails = saved st \<rparr>"

text \<open>
  \<^verbatim>\<open>on_post_save_create\<close> and \<^verbatim>\<open>on_post_save_update\<close>, statement by statement: a hook that
  returns early or raises at a gate leaves everything as it was. The creation hook
  generates its record before it computes the diff, so a diff that raises leaves the
  record generated; the update hook computes the diff first and generates a record
  only for a change set that is not empty.
\<close>

definition on_post_save_create :: "watcher \<Rightarrow> model \<Rightarrow> model_instance \<Rightarrow> bool \<Rightarrow> world \<Rightarrow> outcome" where
  "on_post_save_create w cls i created st =
     (if DISABLE_AUDIT_TRAIL st then unchanged None i st
      else if \<not> created then unchanged None i st
      else (case skip_without_parent w i of
              Inl e \<Rightarrow> unchanged (Some e) i st
            | Inr True \<Rightarrow> unchanged None i st
            | Inr False \<Rightarrow>
                (let ((tid, audit_trail), store) = generate_trail Created (ref i) (saved st)
                 in case get_changes w cls (Some Map.empty) (Some (serialize_object w cls (vals i))) of
                      Inl e \<Rightarrow> \<lparr> raised = Some e, inst = i, trails = store \<rparr>
                    | Inr d \<Rightarrow>
                        (let store1 = save tid (audit_trail\<lparr> changes := d \<rparr>) store;
                             i' = i\<lparr> original_values := Some (serialize_object w cls (vals i)) \<rparr>;
                             (e, store') = create_related_audit_trail w i' tid store1
                         in \<lparr> raised = e, inst = i', trails = store' \<rparr>))))"

definition on_post_save_update :: "watcher \<Rightarrow> model \<Rightarrow> model_instance \<Rightarrow> bool \<Rightarrow> world \<Rightarrow> outcome" where
  "on_post_save_update w cls i created st =
     (if DISABLE_AUDIT_TRAIL st then unchanged None i st
      else if created then unchanged None i st
      else (case skip_without_parent w i of
              Inl e \<Rightarrow> unchanged (Some e) i st
            | Inr True \<Rightarrow> unchanged None i st
            | Inr False \<Rightarrow>
                (case original_values i of
                   None \<Rightarrow> unchanged (Some AttributeError) i st
                 | Some before \<Rightarrow>
                     (case get_changes w cls (Some before) (Some (serialize_object w cls (vals i))) of
                        Inl e \<Rightarrow> unchanged (Some e) i st
                      | Inr d \<Rightarrow>
                          (if d = Map.empty then unchanged None i st
                           else
                             (let ((tid, audit_trail), store) = generate_trail Updated (ref i) (saved st);
                                  store1 = save tid (audit_trail\<lparr> changes := d \<rparr>) store;
                                  i' = i\<lparr> original_values := Some (serialize_object w cls (vals i)) \<rparr>;
                                  (e, store') = create_related_audit_trail w i' tid store1
                              in \<lparr> raised = e, inst = i', trails = store' \<rparr>))))))"

text \<open>
  \<^verbatim>\<open>on_pre_delete\<close>: the capture starts empty and gets the live ids of every notify
  relation that is a manager with members.
\<close>

fun pre_delete_loop :: "model_instance \<Rightarrow> string list \<Rightarrow> (string \<rightharpoonup> int list) \<Rightarrow> (string \<rightharpoonup> int list)" where
  "pre_delete_loop i [] captured = captured"
| "pre_delete_loop i (field_name # rest) captured =
     (case attrs i field_name of
        None \<Rightarrow> pre_delete_loop i rest captured
      | Some IsNone \<Rightarrow> pre_delete_loop i rest captured
      | Some (RelatedObject obj) \<Rightarrow> pre_delete_loop i rest captured
      | Some (RelatedManager m live table) \<Rightarrow>
          (if live \<noteq> [] then pre_delete_loop i rest (captured(field_name \<mapsto> live))
           else pre_delete_loop i rest captured))"

definition on_pre_delete :: "watcher \<Rightarrow> model_instance \<Rightarrow> world \<Rightarrow> outcome" where
  "on_pre_delete w i st =
     (if DISABLE_AUDIT_TRAIL st then unchanged None i st
      else (case notify_related w of
              None \<Rightarrow> unchanged None i st
            | Some [] \<Rightarrow> unchanged None i st
            | Some ns \<Rightarrow>
                \<lparr> raised = None,
                  inst = i\<lparr> audit_ids_to_notify_related_deletion :=
                             Some (pre_delete_loop i ns Map.empty) \<rparr>,
                  trails = saved st \<rparr>))"

text \<open>\<^verbatim>\<open>on_post_delete\<close>: the record is generated before the diff, as on creation.\<close>

definition on_post_delete :: "watcher \<Rightarrow> model \<Rightarrow> model_instance \<Rightarrow> world \<Rightarrow> outcome" where
  "on_post_delete w cls i st =
     (if DISABLE_AUDIT_TRAIL st then unchanged None i st
      else (case skip_without_parent w i of
              Inl e \<Rightarrow> unchanged (Some e) i st
            | Inr True \<Rightarrow> unchanged None i st
            | Inr False \<Rightarrow>
                (let ((tid, audit_trail), store) = generate_trail Deleted (ref i) (saved st)
                 in case get_changes w cls (Some (serialize_object w cls (vals i))) (Some Map.empty) of
                      Inl e \<Rightarrow> \<lparr> raised = Some e, inst = i, trails = store \<rparr>
                    | Inr d \<Rightarrow>
                        (let store1 = save tid (audit_trail\<lparr> changes := d \<rparr>) store;
                             (e, store') = create_deleted_related_audit_trail w i tid store1
                         in \<lparr> raised = e, inst = i, trails = store' \<rparr>))))"

section \<open>Registration and the relation graph\<close>

text \<open>
  A class attribute that \<^verbatim>\<open>init_related_signals\<close> may meet: the accessor of a reverse
  relation (it has \<^verbatim>\<open>related\<close>: the related model and \<^verbatim>\<open>related.field.name\<close>), the
  accessor of a forward foreign key (it has \<^verbatim>\<open>field\<close>: the model of the related field
  and \<^verbatim>\<open>related_query_name()\<close>), or anything else.
\<close>

datatype descriptor =
    ReverseRelation string string
  | ForwardRelation string string
  | PlainAttribute

record py_class =
  class_attrs :: "string \<rightharpoonup> descriptor"
  audit :: "watcher option"

datatype signal = post_save | post_init | pre_delete | post_delete

datatype handler =
    h_on_post_save_create
  | h_on_post_init
  | h_on_post_save_update
  | h_on_pre_delete
  | h_on_post_delete

text \<open>
  The class attribute \<^verbatim>\<open>tracked_models\<close>, the model classes by label, and the receivers
  connected so far, with the sender they were connected for.
\<close>

record registry =
  tracked_models :: "string set"
  classes :: "string \<Rightarrow> py_class"
  receivers :: "(signal \<times> handler \<times> string option) list"

definition hasattr :: "py_class \<Rightarrow> string \<Rightarrow> bool" where
  "hasattr c attr_name = (class_attrs c attr_name \<noteq> None \<or> (attr_name = ''audit'' \<and> audit c \<noteq> None))"

definition contribute_to_class :: "watcher \<Rightarrow> string \<Rightarrow> registry \<Rightarrow> bool \<times> watcher \<times> registry" where
  "contribute_to_class self cls reg =
     (if cls \<in> tracked_models reg then (False, self, reg)
      else
        (let self' = self\<lparr> model_class := Some cls \<rparr>
         in (True, self',
             reg\<lparr> tracked_models := insert cls (tracked_models reg),
                  classes := (classes reg)(cls := (classes reg cls)\<lparr> audit := Some self' \<rparr>) \<rparr>)))"

text \<open>
  The five \<^verbatim>\<open>connect\<close> calls of \<^verbatim>\<open>init_signals\<close>, in their order; the dispatcher keeps
  one entry per receiver and sender.
\<close>

definition connect :: "signal \<Rightarrow> handler \<Rightarrow> string option \<Rightarrow> registry \<Rightarrow> registry" where
  "connect sg h sender reg =
     (if (sg, h, sender) \<in> set (receivers reg) then reg
      else reg\<lparr> receivers := receivers reg @ [(sg, h, sender)] \<rparr>)"

definition connect_signals :: "watcher \<Rightarrow> registry \<Rightarrow> registry" where
  "connect_signals self reg =
     connect post_delete h_on_post_delete (model_class self)
       (connect pre_delete h_on_pre_delete (model_class self)
         (connect post_save h_on_post_save_update (model_class self)
           (connect post_init h_on_post_init (model_class self)
             (connect post_save h_on_post_save_create (model_class self) reg))))"

text \<open>
  The first half of the loop body of \<^verbatim>\<open>init_related_signals\<close>: the related model and
  the name under which it points back.
\<close>

definition resolve_relation :: "watcher \<Rightarrow> string \<Rightarrow> registry \<Rightarrow> error + (string \<times> string)" where
  "resolve_relation self attr_name reg =
     (case model_class self of
        None \<Rightarrow> Inl AttributeError
      | Some cls \<Rightarrow>
          (case class_attrs (classes reg cls) attr_name of
             None \<Rightarrow> Inl AttributeError
           | Some PlainAttribute \<Rightarrow> Inl AttributeError
           | Some (ReverseRelation related_model related_field_name) \<Rightarrow>
               Inr (related_model, related_field_name)
           | Some (ForwardRelation related_model related_query_name) \<Rightarrow>
               Inr (related_model,
                    if \<not> hasattr (classes reg related_model) related_query_name
                    then related_query_name @ ''_set''
                    else related_query_name)))"

text \<open>
  The second half: a related model without \<^verbatim>\<open>audit\<close> gets
  \<^verbatim>\<open>AuditTrailWatcher(track_only_with_related=True)\<close>, contributed and wired by
  \<^verbatim>\<open>init_signals\<close> (whose own \<^verbatim>\<open>init_related_signals\<close> returns at once, the new watcher
  having no \<^verbatim>\<open>track_related\<close>); then the name is appended to the notify list of the
  watcher the related model carries.
\<close>

definition ensure_watcher :: "string \<Rightarrow> registry \<Rightarrow> registry" where
  "ensure_watcher related_model reg =
     (if \<not> hasattr (classes reg related_model) ''audit''
      then (let (ok, related_watcher, reg') =
                  contribute_to_class (AuditTrailWatcher None None None True None) related_model reg
            in connect_signals related_watcher reg')
      else reg)"

definition add_notify_related :: "string \<Rightarrow> string \<Rightarrow> registry \<Rightarrow> error + registry" where
  "add_notify_related related_model related_field_name reg =
     (case audit (classes reg related_model) of
        None \<Rightarrow> Inl AttributeError
      | Some a \<Rightarrow>
          Inr (reg\<lparr> classes := (classes reg)(related_model := (classes reg related_model)
                 \<lparr> audit := Some (a\<lparr> notify_related :=
                      Some ((case notify_related a of None \<Rightarrow> [] | Some ns \<Rightarrow> ns)
                            @ [related_field_name]) \<rparr>) \<rparr>) \<rparr>))"

definition init_related_step :: "watcher \<Rightarrow> string \<Rightarrow> registry \<Rightarrow> error + registry" where
  "init_related_step self attr_name reg =
     (case resolve_relation self attr_name reg of
        Inl e \<Rightarrow> Inl e
      | Inr (related_model, related_field_name) \<Rightarrow>
          add_notify_related related_model related_field_name (ensure_watcher related_model reg))"

fun init_related_loop :: "watcher \<Rightarrow> string list \<Rightarrow> registry \<Rightarrow> error option \<times> registry" where
  "init_related_loop self [] reg = (None, reg)"
| "init_related_loop self (attr_name # rest) reg =
     (case init_related_step self attr_name reg of
        Inl e \<Rightarrow> (Some e, reg)
      | Inr reg' \<Rightarrow> init_related_loop self rest reg')"

definition init_related_signals :: "watcher \<Rightarrow> registry \<Rightarrow> error option \<times> registry" where
  "init_related_signals self reg =
     (case track_related self of
        None \<Rightarrow> (None, reg)
      | Some [] \<Rightarrow> (None, reg)
      | Some names \<Rightarrow> init_related_loop self names reg)"

definition init_signals :: "watcher \<Rightarrow> registry \<Rightarrow> error option \<times> registry" where
  "init_signals self reg = init_related_signals self (connect_signals self reg)"

section \<open>Notions of the specification\<close>

text \<open>
  The rendering of one value of one field, in the words of the specification: the
  reference rule for a reference-typed field, then the label rule for a field with an
  enumerated domain. Two snapshots render a field identically when both renderings
  succeed with the same result; a missing key reads as null.
\<close>

definition render :: "model \<Rightarrow> string \<Rightarrow> pyval \<Rightarrow> error + pyval" where
  "render cls field_name v =
     (case get_field cls field_name of
        Inl e \<Rightarrow> Inl e
      | Inr r \<Rightarrow>
          (case (if is_ForeignKey r then get_fk_value cls field_name v else Inr v) of
             Inl e \<Rightarrow> Inl e
           | Inr v' \<Rightarrow>
               (case field_choices r of
                  Inl e \<Rightarrow> Inl e
                | Inr f \<Rightarrow>
                    (if choices f \<noteq> [] then get_choice_value cls f field_name v' else Inr v'))))"

definition renders_identically :: "model \<Rightarrow> snapshot \<Rightarrow> snapshot \<Rightarrow> string \<Rightarrow> bool" where
  "renders_identically cls s1 s2 field_name =
     (case render cls field_name (snapshot_get s1 field_name) of
        Inl e \<Rightarrow> False
      | Inr a \<Rightarrow>
          (case render cls field_name (snapshot_get s2 field_name) of
             Inl e \<Rightarrow> False
           | Inr b \<Rightarrow> a = b))"

text \<open>
  A snapshot holds a stale reference in a field: the field is a foreign key, the
  snapshot has an id for it, and the store has no row of that id.
\<close>

definition stale_reference :: "model \<Rightarrow> snapshot \<Rightarrow> string \<Rightarrow> bool" where
  "stale_reference cls s field_name =
     (case get_field cls field_name of
        Inl e \<Rightarrow> False
      | Inr r \<Rightarrow>
          is_ForeignKey r \<and> snapshot_get s field_name \<noteq> PNone \<and>
          (case py_int (snapshot_get s field_name) of
             Inl e \<Rightarrow> False
           | Inr n \<Rightarrow> related_unicode cls field_name n = Inl DoesNotExist))"

section \<open>Example data\<close>

text \<open>
  A \<^verbatim>\<open>Post\<close> model with an identity field, a title, a status with two choices and an
  author foreign key, a many-to-many field \<^verbatim>\<open>tags\<close> and the reverse relation of its
  comments; the only author row in the store has id 1.
\<close>

definition post_fields :: "field list" where
  "post_fields =
     [\<lparr> name = ''id'', attname = ''id'', is_foreign_key = False, choices = [] \<rparr>,
      \<lparr> name = ''title'', attname = ''title'', is_foreign_key = False, choices = [] \<rparr>,
      \<lparr> name = ''status'', attname = ''status'', is_foreign_key = False,
        choices = [(PInt 1, ''draft''), (PInt 2, ''published'')] \<rparr>,
      \<lparr> name = ''author'', attname = ''author_id'', is_foreign_key = True, choices = [] \<rparr>]"

definition author_rows :: "string \<Rightarrow> int \<Rightarrow> error + string" where
  "author_rows field_name n =
     (if field_name \<noteq> ''author'' then Inl TypeError
      else if n = 1 then Inr ''alice''
      else Inl DoesNotExist)"

definition post_many_to_many :: "field list" where
  "post_many_to_many =
     [\<lparr> name = ''tags'', attname = ''tags'', is_foreign_key = False, choices = [] \<rparr>]"

text \<open>A model without foreign keys takes no \<^verbatim>\<open><f>_id\<close> keyword.\<close>

definition no_references :: "string \<Rightarrow> int \<Rightarrow> error + string" where
  "no_references field_name n = Inl TypeError"

definition post_model :: model where
  "post_model =
     \<lparr> meta_fields = post_fields, many_to_many = post_many_to_many,
       relation_names = [''comment''], related_unicode = author_rows \<rparr>"

definition post_watcher :: watcher where
  "post_watcher = AuditTrailWatcher None None None False None"

text \<open>Two snapshots whose author, id 7, is no longer in the store.\<close>

definition stale_old :: snapshot where
  "stale_old = [''title'' \<mapsto> PStr ''Hi'', ''author'' \<mapsto> PInt 7]"

definition stale_new :: snapshot where
  "stale_new = [''title'' \<mapsto> PStr ''Hello'', ''author'' \<mapsto> PInt 7]"

text \<open>
  A \<^verbatim>\<open>Gauge\<close> model with a float field, and a snapshot whose reading is not a number.
\<close>

definition gauge_fields :: "field list" where
  "gauge_fields =
     [\<lparr> name = ''id'', attname = ''id'', is_foreign_key = False, choices = [] \<rparr>,
      \<lparr> name = ''reading'', attname = ''reading'', is_foreign_key = False, choices = [] \<rparr>]"

definition gauge_model :: model where
  "gauge_model =
     \<lparr> meta_fields = gauge_fields, many_to_many = [], relation_names = [],
       related_unicode = no_references \<rparr>"

definition broken_reading :: snapshot where
  "broken_reading = [''reading'' \<mapsto> PNaN]"

text \<open>A watcher whose tracked list names an attname and a many-to-many field.\<close>

definition attname_watcher :: watcher where
  "attname_watcher = AuditTrailWatcher (Some [''author_id'', ''tags'']) None None False None"

text \<open>Two snapshots that differ only in a key that is null in one and missing in the other.\<close>

definition draft_explicit :: snapshot where
  "draft_explicit = [''title'' \<mapsto> PStr ''Hi'', ''status'' \<mapsto> PInt 1, ''author'' \<mapsto> PNone]"

definition draft_implicit :: snapshot where
  "draft_implicit = [''title'' \<mapsto> PStr ''Hi'', ''status'' \<mapsto> PInt 1]"

section \<open>Notions of the specification: parents, captures and notifications\<close>

text \<open>
  The cascade record of the specification: a \<^verbatim>\<open>RelatedChange\<close> record about \<open>obj\<close> whose
  \<^verbatim>\<open>related_trail\<close> points at the triggering record \<open>tid\<close>.
\<close>

definition related_change :: "nat \<Rightarrow> obj_ref \<Rightarrow> audit_trail" where
  "related_change tid obj =
     \<lparr> content_object = obj, action = RelatedChange, changes = Map.empty, related_trail = Some tid \<rparr>"

text \<open>
  "Parent exists", in the words of the claim: some notify relation resolves to a
  non-null single entity, or to a non-empty related collection, or has a non-empty
  capture of severed ids.
\<close>

definition parent_exists :: "string list \<Rightarrow> model_instance \<Rightarrow> bool" where
  "parent_exists ns i =
     (\<exists>f \<in> set ns.
        (case attrs i f of
           Some (RelatedObject obj) \<Rightarrow> True
         | Some (RelatedManager m live table) \<Rightarrow> live \<noteq> []
         | _ \<Rightarrow> False) \<or>
        (case audit_ids_to_notify_related_deletion i of
           None \<Rightarrow> False
         | Some captured \<Rightarrow> (case captured f of None \<Rightarrow> False | Some ids \<Rightarrow> ids \<noteq> [])))"

text \<open>
  The captures an instance carries are those \<^verbatim>\<open>on_pre_delete\<close> wrote: it stores a list of
  ids only for a relation that has members, so no stored list is empty.
\<close>

definition captures_nonempty :: "model_instance \<Rightarrow> bool" where
  "captures_nonempty i =
     (case audit_ids_to_notify_related_deletion i of
        None \<Rightarrow> True
      | Some captured \<Rightarrow> [] \<notin> ran captured)"

text \<open>The ids a collection-valued relation enumerates now, and the ids captured for it.\<close>

definition live_members :: "model_instance \<Rightarrow> string \<Rightarrow> int list" where
  "live_members i field_name =
     (case attrs i field_name of
        Some (RelatedManager m live table) \<Rightarrow> live
      | _ \<Rightarrow> [])"




text \<open>
  The record of an identity or update event of the specification: subject, kind and
  change set, with no related record.
\<close>

definition history_record :: "action \<Rightarrow> obj_ref \<Rightarrow> changeset \<Rightarrow> audit_trail" where
  "history_record a obj d = \<lparr> content_object = obj, action = a, changes = d, related_trail = None \<rparr>"

text \<open>
  The change set a record generated before the diff ends up with: that of the diff, or
  none when the diff raised before the record was saved again.
\<close>

definition recorded_changes :: "error + changeset \<Rightarrow> changeset" where
  "recorded_changes r = (case r of Inl e \<Rightarrow> Map.empty | Inr d \<Rightarrow> d)"

text \<open>
  The before-snapshot an instance carries, if it carries one, is one this watcher's
  \<^verbatim>\<open>serialize_object\<close> produced: \<^verbatim>\<open>_original_values\<close> is assigned nowhere else.
\<close>

definition snapshot_of :: "watcher \<Rightarrow> model \<Rightarrow> snapshot option \<Rightarrow> bool" where
  "snapshot_of w cls s = (case s of None \<Rightarrow> True | Some b \<Rightarrow> \<exists>vs. b = serialize_object w cls vs)"

section \<open>Example data for the lifecycle\<close>

definition world_on :: world where
  "world_on = \<lparr> DISABLE_AUDIT_TRAIL = False, saved = [] \<rparr>"

definition world_off :: world where
  "world_off = \<lparr> DISABLE_AUDIT_TRAIL = True, saved = [] \<rparr>"

text \<open>A post by author 1 that was never snapshotted, and one with every field null.\<close>

definition post_vals :: "string \<Rightarrow> pyval" where
  "post_vals field_name =
     (if field_name = ''id'' then PInt 3
      else if field_name = ''title'' then PStr ''Hi''
      else if field_name = ''status'' then PInt 1
      else if field_name = ''author'' then PInt 1
      else PNone)"

definition fresh_post :: model_instance where
  "fresh_post =
     \<lparr> ref = (''Post'', 3), vals = post_vals, attrs = Map.empty,
       original_values = None, audit_ids_to_notify_related_deletion = None \<rparr>"

definition blank_vals :: "string \<Rightarrow> pyval" where
  "blank_vals field_name = PNone"

definition blank_post :: model_instance where
  "blank_post =
     \<lparr> ref = (''Post'', 4), vals = blank_vals, attrs = Map.empty,
       original_values = None, audit_ids_to_notify_related_deletion = None \<rparr>"

text \<open>The same post after \<^verbatim>\<open>on_post_init\<close>, unchanged since.\<close>

definition loaded_post :: model_instance where
  "loaded_post = fresh_post\<lparr> original_values := Some (serialize_object post_watcher post_model post_vals) \<rparr>"

text \<open>A post whose author, id 7, has no row.\<close>

definition orphan_vals :: "string \<Rightarrow> pyval" where
  "orphan_vals field_name =
     (if field_name = ''id'' then PInt 8
      else if field_name = ''title'' then PStr ''Hi''
      else if field_name = ''author'' then PInt 7
      else PNone)"

definition orphan_post :: model_instance where
  "orphan_post =
     \<lparr> ref = (''Post'', 8), vals = orphan_vals, attrs = Map.empty,
       original_values = None, audit_ids_to_notify_related_deletion = None \<rparr>"

text \<open>
  A \<^verbatim>\<open>Comment\<close> model tracked only with its parent post, as \<^verbatim>\<open>init_related_signals\<close> sets
  it up, and a comment whose \<^verbatim>\<open>post\<close> is null.
\<close>

definition comment_fields :: "field list" where
  "comment_fields =
     [\<lparr> name = ''id'', attname = ''id'', is_foreign_key = False, choices = [] \<rparr>,
      \<lparr> name = ''text'', attname = ''text'', is_foreign_key = False, choices = [] \<rparr>]"

definition comment_model :: model where
  "comment_model =
     \<lparr> meta_fields = comment_fields, many_to_many = [], relation_names = [],
       related_unicode = no_references \<rparr>"

definition comment_watcher :: watcher where
  "comment_watcher = AuditTrailWatcher None None (Some [''post'']) True None"

definition comment_vals :: "string \<Rightarrow> pyval" where
  "comment_vals field_name =
     (if field_name = ''id'' then PInt 5
      else if field_name = ''text'' then PStr ''hello''
      else PNone)"

definition parentless_comment :: model_instance where
  "parentless_comment =
     \<lparr> ref = (''Comment'', 5), vals = comment_vals, attrs = [''post'' \<mapsto> IsNone],
       original_values = None, audit_ids_to_notify_related_deletion = None \<rparr>"

text \<open>A watcher that requires a parent and was given no notify relations.\<close>

definition lonely_watcher :: watcher where
  "lonely_watcher = AuditTrailWatcher None None None True None"

text \<open>A watcher whose tracked list names the identity field.\<close>

definition id_tracking_watcher :: watcher where
  "id_tracking_watcher = AuditTrailWatcher (Some [''id'', ''title'']) None None False None"

text \<open>The post under the watcher that tracks the identity field, loaded blank and then filled in.\<close>

definition edited_post :: model_instance where
  "edited_post =
     fresh_post\<lparr> original_values := Some (serialize_object id_tracking_watcher post_model blank_vals) \<rparr>"

section \<open>Notions of the specification: registration\<close>

text \<open>The five receivers \<^verbatim>\<open>init_signals\<close> connects for a model class.\<close>

definition signal_wiring :: "string \<Rightarrow> (signal \<times> handler \<times> string option) list" where
  "signal_wiring cls =
     [(post_save, h_on_post_save_create, Some cls),
      (post_init, h_on_post_init, Some cls),
      (post_save, h_on_post_save_update, Some cls),
      (pre_delete, h_on_pre_delete, Some cls),
      (post_delete, h_on_post_delete, Some cls)]"

text \<open>
  A class is in \<^verbatim>\<open>tracked_models\<close> exactly when it carries a watcher, and \<^verbatim>\<open>audit\<close> names
  nothing else on it: what \<^verbatim>\<open>contribute_to_class\<close> maintains.
\<close>

definition registered_consistently :: "registry \<Rightarrow> string \<Rightarrow> bool" where
  "registered_consistently reg cls =
     ((cls \<in> tracked_models reg) = (audit (classes reg cls) \<noteq> None) \<and>
      class_attrs (classes reg cls) ''audit'' = None)"

text \<open>
  The shadow policy of the specification for a related type: it requires a parent, has
  no tracked-field list and no cascade relations of its own, and is notified through
  one back-reference.
\<close>

definition shadow_policy :: "string \<Rightarrow> string \<Rightarrow> watcher" where
  "shadow_policy cls back_reference =
     \<lparr> model_class = Some cls, fields' = None, notify_related = Some [back_reference],
       track_related = None, track_only_with_related = True, excluded_fields = [''id''] \<rparr>"

section \<open>Example data for registration\<close>

text \<open>
  A registry with nothing in it; and a blog whose \<^verbatim>\<open>Post\<close> tracks its comments and its
  author, where \<^verbatim>\<open>Comment\<close> has a watcher of its own and \<^verbatim>\<open>User\<close> has none.
\<close>

definition blank_class :: py_class where
  "blank_class = \<lparr> class_attrs = Map.empty, audit = None \<rparr>"

definition no_classes :: "string \<Rightarrow> py_class" where
  "no_classes cls = blank_class"

definition empty_registry :: registry where
  "empty_registry = \<lparr> tracked_models = {}, classes = no_classes, receivers = [] \<rparr>"

definition tracking_post_watcher :: watcher where
  "tracking_post_watcher =
     (AuditTrailWatcher None (Some [''comment_set'', ''author'']) None False None)
       \<lparr> model_class := Some ''Post'' \<rparr>"

definition own_comment_watcher :: watcher where
  "own_comment_watcher =
     (AuditTrailWatcher None None (Some [''author'']) False None)\<lparr> model_class := Some ''Comment'' \<rparr>"

definition post_class :: py_class where
  "post_class =
     \<lparr> class_attrs = [''comment_set'' \<mapsto> ReverseRelation ''Comment'' ''post'',
                      ''author'' \<mapsto> ForwardRelation ''User'' ''post''],
       audit = Some tracking_post_watcher \<rparr>"

definition user_class :: py_class where
  "user_class =
     \<lparr> class_attrs = [''post_set'' \<mapsto> ReverseRelation ''Post'' ''author''], audit = None \<rparr>"

definition comment_class :: py_class where
  "comment_class =
     \<lparr> class_attrs = [''post'' \<mapsto> ForwardRelation ''Post'' ''comment''],
       audit = Some own_comment_watcher \<rparr>"

definition blog_classes :: "string \<Rightarrow> py_class" where
  "blog_classes cls =
     (if cls = ''Post'' then post_class
      else if cls = ''User'' then user_class
      else if cls = ''Comment'' then comment_class
      else blank_class)"

definition blog_registry :: registry where
  "blog_registry = \<lparr> tracked_models = {''Post'', ''Comment''}, classes = blog_classes, receivers = [] \<rparr>"

definition user_fields :: "field list" where
  "user_fields =
     [\<lparr> name = ''id'', attname = ''id'', is_foreign_key = False, choices = [] \<rparr>,
      \<lparr> name = ''name'', attname = ''name'', is_foreign_key = False, choices = [] \<rparr>]"

definition user_model :: model where
  "user_model =
     \<lparr> meta_fields = user_fields, many_to_many = [], relation_names = [''post''],
       related_unicode = no_references \<rparr>"

definition user_vals :: "string \<Rightarrow> pyval" where
  "user_vals field_name =
     (if field_name = ''id'' then PInt 1
      else if field_name = ''name'' then PStr ''alice''
      else PNone)"

definition author_with_post :: model_instance where
  "author_with_post =
     \<lparr> ref = (''User'', 1), vals = user_vals,
       attrs = [''post_set'' \<mapsto> RelatedManager ''Post'' [3] [3]],
       original_values = None, audit_ids_to_notify_related_deletion = None \<rparr>"

section \<open>Example data for deletion\<close>








section \<open>Properties of the differ\<close>

lemmas differ_defs =
  AuditTrailWatcher_def get_changes_def diff_fields_def diff_field_def get_field_def
  is_ForeignKey_def field_choices_def get_fk_value_def get_choice_value_def init_keywords_def
  snapshot_get_def py_int_def py_ne_def get_display_def unicode_def string_of_int_def
  string_of_nat.simps

lemmas post_defs =
  post_fields_def post_many_to_many_def author_rows_def post_model_def post_watcher_def

lemma diff_field_None_iff:
  "diff_field cls old new f = Inr None \<longleftrightarrow>
     renders_identically cls old new f \<and> render cls f (snapshot_get old f) \<noteq> Inr PNaN"
  by (auto simp: diff_field_def renders_identically_def render_def py_ne_def
           split: sum.splits if_splits prod.splits)

lemma diff_field_Inl_iff:
  "isl (diff_field cls old new f) \<longleftrightarrow>
     isl (render cls f (snapshot_get old f)) \<or> isl (render cls f (snapshot_get new f))"
  by (auto simp: diff_field_def render_def split: sum.splits if_splits prod.splits)

lemma loop_dom_mono:
  "get_changes_loop cls old new fs d = Inr d' \<Longrightarrow> dom d \<subseteq> dom d'"
proof (induction fs arbitrary: d)
  case Nil
  then show ?case by simp
next
  case (Cons f fs)
  show ?case
  proof (cases "diff_field cls old new f")
    case (Inl e)
    with Cons.prems show ?thesis by simp
  next
    case (Inr r)
    show ?thesis
    proof (cases r)
      case None
      with Inr Cons show ?thesis by simp
    next
      case (Some c)
      with Inr Cons.prems have "get_changes_loop cls old new fs (d(f \<mapsto> c)) = Inr d'"
        by simp
      then have "dom (d(f \<mapsto> c)) \<subseteq> dom d'" by (rule Cons.IH)
      then show ?thesis by (simp only: dom_fun_upd option.distinct if_False) blast
    qed
  qed
qed

lemma loop_empty_iff:
  "get_changes_loop cls old new fs d = Inr Map.empty \<longleftrightarrow>
     d = Map.empty \<and> (\<forall>f \<in> set fs. diff_field cls old new f = Inr None)"
proof (induction fs arbitrary: d)
  case Nil
  show ?case by auto
next
  case (Cons f fs)
  show ?case
  proof (cases "diff_field cls old new f")
    case (Inl e)
    then show ?thesis by auto
  next
    case (Inr r)
    show ?thesis
    proof (cases r)
      case None
      with Inr Cons show ?thesis by auto
    next
      case (Some c)
      have "get_changes_loop cls old new fs (d(f \<mapsto> c)) \<noteq> Inr Map.empty"
        using loop_dom_mono [of cls old new fs "d(f \<mapsto> c)" Map.empty] by auto
      with Inr Some show ?thesis by auto
    qed
  qed
qed

lemma loop_error:
  "f \<in> set fs \<Longrightarrow> isl (diff_field cls old new f) \<Longrightarrow> isl (get_changes_loop cls old new fs d)"
  by (induction fs arbitrary: d) (auto split: sum.splits option.splits)

lemma loop_isl_iff:
  "isl (get_changes_loop cls old new fs d) \<longleftrightarrow> (\<exists>f \<in> set fs. isl (diff_field cls old new f))"
  by (induction fs arbitrary: d) (auto split: sum.splits option.splits)

lemma stale_reference_DoesNotExist:
  "stale_reference cls s f \<Longrightarrow> get_fk_value cls f (snapshot_get s f) = Inl DoesNotExist"
  by (auto simp: stale_reference_def get_fk_value_def split: sum.splits)

lemma stale_reference_render:
  "stale_reference cls s f \<Longrightarrow> isl (render cls f (snapshot_get s f))"
  by (auto simp: stale_reference_def render_def get_fk_value_def split: sum.splits)

text \<open>
  C1, as the code has it. The claim asks that a reference whose entity is gone be
  rendered as a placeholder and that the diff go on. The differ has no such rule:
  rendering the stale id raises \<^verbatim>\<open>DoesNotExist\<close>, and whenever one of the fields the
  differ iterates holds a stale reference in the old or in the new snapshot, the whole
  diff ends in an exception and no change set is returned.
\<close>

theorem stale_reference_aborts_diff:
  assumes "field_name \<in> set (diff_fields w cls)"
      and "stale_reference cls old field_name \<or> stale_reference cls new field_name"
    shows "isl (get_changes w cls (Some old) (Some new)) \<and>
           (stale_reference cls old field_name \<longrightarrow>
              get_fk_value cls field_name (snapshot_get old field_name) = Inl DoesNotExist) \<and>
           (stale_reference cls new field_name \<longrightarrow>
              get_fk_value cls field_name (snapshot_get new field_name) = Inl DoesNotExist)"
proof -
  from assms(2) have "isl (diff_field cls old new field_name)"
    unfolding diff_field_Inl_iff using stale_reference_render by blast
  with assms(1) have "isl (get_changes w cls (Some old) (Some new))"
    by (simp add: get_changes_def loop_error)
  then show ?thesis using stale_reference_DoesNotExist by blast
qed

theorem stale_reference_aborts_diff_witness:
  "''author'' \<in> set (diff_fields post_watcher post_model) \<and>
   stale_reference post_model stale_old ''author'' \<and>
   isl (get_changes post_watcher post_model (Some stale_old) (Some stale_new)) \<and>
   get_fk_value post_model ''author'' (snapshot_get stale_old ''author'') = Inl DoesNotExist"
proof -
  have a: "''author'' \<in> set (diff_fields post_watcher post_model)"
    by (simp add: post_defs differ_defs)
  have b: "stale_reference post_model stale_old ''author''"
    by (simp add: stale_reference_def stale_old_def post_defs differ_defs)
  from stale_reference_aborts_diff [OF a disjI1 [OF b], of stale_new] a b
  show ?thesis by blast
qed

text \<open>
  The claim of C1 fails on the \<^verbatim>\<open>Post\<close> model: the title changes, the author id 7 has no
  row, and the diff is the exception instead of a change set with a placeholder.
\<close>

theorem stale_reference_counterexample:
  "get_changes post_watcher post_model (Some stale_old) (Some stale_new) = Inl DoesNotExist"
  by (simp add: stale_old_def stale_new_def post_defs differ_defs)

text \<open>
  A tracked list may name a foreign key by its attname and a many-to-many field:
  \<^verbatim>\<open>get_field\<close> resolves both, no snapshot has a value under either name, and the diff
  is empty whatever else the snapshots hold.
\<close>

lemma attname_diff_example:
  "get_changes attname_watcher post_model (Some draft_explicit) (Some stale_new) = Inr Map.empty"
  by (simp add: attname_watcher_def draft_explicit_def stale_new_def post_defs differ_defs)

text \<open>
  C5, as the code has it. Over the list of fields the differ iterates (the tracked
  list, or all declared fields when that list is unset or empty), the diff of two
  snapshots is the empty change set exactly when every field renders without an
  exception and identically in both, to a value that equals itself (any value but a
  not-a-number), a missing key counting as null. The diff of a snapshot with itself is
  empty exactly when every field renders without an exception to a value that equals
  itself. The diff raises exactly when the rendering of some field raises.
\<close>

theorem get_changes_empty_iff:
  "(get_changes w cls (Some s1) (Some s2) = Inr Map.empty \<longleftrightarrow>
      (\<forall>f \<in> set (diff_fields w cls).
         renders_identically cls s1 s2 f \<and> render cls f (snapshot_get s1 f) \<noteq> Inr PNaN)) \<and>
   (get_changes w cls (Some s) (Some s) = Inr Map.empty \<longleftrightarrow>
      (\<forall>f \<in> set (diff_fields w cls).
         \<not> isl (render cls f (snapshot_get s f)) \<and> render cls f (snapshot_get s f) \<noteq> Inr PNaN)) \<and>
   (isl (get_changes w cls (Some s1) (Some s2)) \<longleftrightarrow>
      (\<exists>f \<in> set (diff_fields w cls).
         isl (render cls f (snapshot_get s1 f)) \<or> isl (render cls f (snapshot_get s2 f))))"
proof -
  have self: "renders_identically cls s s f \<longleftrightarrow> \<not> isl (render cls f (snapshot_get s f))" for f
    by (cases "render cls f (snapshot_get s f)") (simp_all add: renders_identically_def)
  have e: "get_changes w cls (Some a) (Some b) = Inr Map.empty \<longleftrightarrow>
          (\<forall>f \<in> set (diff_fields w cls).
             renders_identically cls a b f \<and> render cls f (snapshot_get a f) \<noteq> Inr PNaN)" for a b
    by (simp add: get_changes_def loop_empty_iff diff_field_None_iff)
  have r: "isl (get_changes w cls (Some s1) (Some s2)) \<longleftrightarrow>
      (\<exists>f \<in> set (diff_fields w cls).
         isl (render cls f (snapshot_get s1 f)) \<or> isl (render cls f (snapshot_get s2 f)))"
    by (simp add: get_changes_def loop_isl_iff diff_field_Inl_iff)
  from e [of s1 s2] e [of s s] r show ?thesis by (simp add: self)
qed

theorem get_changes_empty_iff_witness:
  "get_changes post_watcher post_model (Some draft_explicit) (Some draft_implicit) = Inr Map.empty \<and>
   get_changes post_watcher post_model (Some draft_explicit) (Some draft_explicit) = Inr Map.empty \<and>
   draft_explicit \<noteq> draft_implicit \<and>
   isl (render post_model ''author'' (snapshot_get stale_old ''author'')) \<and>
   isl (get_changes post_watcher post_model (Some stale_old) (Some stale_new))"
proof -
  have fs: "diff_fields post_watcher post_model = [''id'', ''title'', ''status'', ''author'']"
    by (simp add: post_defs differ_defs)
  have a: "\<forall>f \<in> set (diff_fields post_watcher post_model).
             renders_identically post_model draft_explicit draft_implicit f \<and>
             render post_model f (snapshot_get draft_explicit f) \<noteq> Inr PNaN"
    unfolding fs
    by (simp add: renders_identically_def render_def draft_explicit_def draft_implicit_def
                  post_defs differ_defs)
  have b: "\<forall>f \<in> set (diff_fields post_watcher post_model).
             \<not> isl (render post_model f (snapshot_get draft_explicit f)) \<and>
             render post_model f (snapshot_get draft_explicit f) \<noteq> Inr PNaN"
    unfolding fs
    by (simp add: render_def draft_explicit_def post_defs differ_defs)
  have c: "draft_explicit ''author'' \<noteq> draft_implicit ''author''"
    by (simp add: draft_explicit_def draft_implicit_def)
  from c have c': "draft_explicit \<noteq> draft_implicit" by metis
  have d: "isl (render post_model ''author'' (snapshot_get stale_old ''author''))"
    by (simp add: render_def stale_old_def post_defs differ_defs)
  have m: "''author'' \<in> set (diff_fields post_watcher post_model)" unfolding fs by simp
  note t1 = get_changes_empty_iff [of post_watcher post_model draft_explicit draft_implicit draft_explicit]
  note t2 = get_changes_empty_iff [of post_watcher post_model stale_old stale_new draft_explicit]
  from t1 a b have "get_changes post_watcher post_model (Some draft_explicit) (Some draft_implicit) = Inr Map.empty"
    and "get_changes post_watcher post_model (Some draft_explicit) (Some draft_explicit) = Inr Map.empty"
    by blast+
  moreover from t2 d m have "isl (get_changes post_watcher post_model (Some stale_old) (Some stale_new))"
    by blast
  ultimately show ?thesis using c' d by blast
qed

text \<open>
  The claim of C5 fails where it says that the diff of a snapshot with itself is always
  empty: with the stale author of \<open>stale_old\<close> it is an exception, and with a reading
  that is not a number it is a change of that reading.
\<close>

theorem get_changes_self_counterexample:
  "get_changes post_watcher post_model (Some stale_old) (Some stale_old) = Inl DoesNotExist \<and>
   renders_identically gauge_model broken_reading broken_reading ''reading'' \<and>
   get_changes post_watcher gauge_model (Some broken_reading) (Some broken_reading) =
     Inr [''reading'' \<mapsto> \<lparr> old_value = PNaN, new_value = PNaN \<rparr>]"
  by (simp add: stale_old_def broken_reading_def gauge_model_def gauge_fields_def
                renders_identically_def render_def post_defs differ_defs)

section \<open>Properties of the cascades and of the parent gate\<close>

lemma notify_objects_eq:
  "notify_objects tid objs store = store @ map (related_change tid) objs"
  by (induction objs arbitrary: store)
     (simp_all add: save_def generate_trail_def related_change_def Let_def)

lemma create_related_loop_appends:
  "\<exists>objs. snd (create_related_loop i tid ns store) = store @ map (related_change tid) objs"
proof (induction ns arbitrary: store)
  case Nil
  have "snd (create_related_loop i tid [] store) = store @ map (related_change tid) []" by simp
  then show ?case by blast
next
  case (Cons f fs)
  show ?case
  proof (cases "attrs i f")
    case None
    then have "snd (create_related_loop i tid (f # fs) store) = store @ map (related_change tid) []"
      by simp
    then show ?thesis by blast
  next
    case (Some a)
    show ?thesis
    proof (cases a)
      case IsNone
      with Some Cons.IH [of store] show ?thesis by simp
    next
      case (RelatedObject obj)
      from Cons.IH [of "store @ map (related_change tid) [obj]"]
      obtain objs where "snd (create_related_loop i tid fs (store @ map (related_change tid) [obj]))
          = (store @ map (related_change tid) [obj]) @ map (related_change tid) objs" by blast
      with Some RelatedObject
      have "snd (create_related_loop i tid (f # fs) store) = store @ map (related_change tid) (obj # objs)"
        by (simp add: notify_objects_eq)
      then show ?thesis by blast
    next
      case (RelatedManager m live table)
      from Cons.IH [of "store @ map (related_change tid) (map (Pair m) live)"]
      obtain objs where "snd (create_related_loop i tid fs (store @ map (related_change tid) (map (Pair m) live)))
          = (store @ map (related_change tid) (map (Pair m) live)) @ map (related_change tid) objs" by blast
      with Some RelatedManager
      have "snd (create_related_loop i tid (f # fs) store) =
              store @ map (related_change tid) (map (Pair m) live @ objs)"
        by (simp add: notify_objects_eq)
      then show ?thesis by blast
    qed
  qed
qed

lemma create_related_audit_trail_appends:
  "\<exists>objs. snd (create_related_audit_trail w i tid store) = store @ map (related_change tid) objs"
proof (cases "notify_related w")
  case None
  then have "snd (create_related_audit_trail w i tid store) = store @ map (related_change tid) []"
    by (simp add: create_related_audit_trail_def)
  then show ?thesis by blast
next
  case (Some ns)
  show ?thesis
  proof (cases ns)
    case Nil
    with Some have "snd (create_related_audit_trail w i tid store) = store @ map (related_change tid) []"
      by (simp add: create_related_audit_trail_def)
    then show ?thesis by blast
  next
    case (Cons a list)
    with Some have "create_related_audit_trail w i tid store = create_related_loop i tid ns store"
      by (simp add: create_related_audit_trail_def)
    then show ?thesis using create_related_loop_appends [of i tid ns store] by simp
  qed
qed


lemma pre_delete_loop_capture:
  "pre_delete_loop i ns cap f =
     (if f \<in> set ns \<and> live_members i f \<noteq> [] then Some (live_members i f) else cap f)"
proof (induction ns arbitrary: cap)
  case Nil
  then show ?case by simp
next
  case (Cons g gs)
  show ?case
  proof (cases "attrs i g")
    case None
    with Cons show ?thesis by (auto simp: live_members_def)
  next
    case (Some a)
    with Cons show ?thesis by (cases a) (auto simp: live_members_def)
  qed
qed

lemma pre_delete_loop_nonempty: "[] \<notin> ran (pre_delete_loop i ns Map.empty)"
  by (auto simp: ran_def pre_delete_loop_capture)

lemma on_pre_delete_eq:
  "on_pre_delete w i st =
     (if DISABLE_AUDIT_TRAIL st \<or> notify_related w = None \<or> notify_related w = Some []
      then unchanged None i st
      else \<lparr> raised = None,
             inst = i\<lparr> audit_ids_to_notify_related_deletion :=
                        Some (pre_delete_loop i (the (notify_related w)) Map.empty) \<rparr>,
             trails = saved st \<rparr>)"
  by (simp add: on_pre_delete_def split: option.splits list.splits del: pre_delete_loop.simps)

lemma on_pre_delete_captures_nonempty:
  "captures_nonempty i \<Longrightarrow> captures_nonempty (inst (on_pre_delete w i st))"
  by (simp add: on_pre_delete_eq unchanged_def captures_nonempty_def pre_delete_loop_nonempty)

lemma parent_loop_parent_exists:
  "captures_nonempty i \<Longrightarrow> parent_loop i ns \<Longrightarrow> parent_exists ns i"
proof (induction ns)
  case Nil
  then show ?case by simp
next
  case (Cons f fs)
  show ?case
  proof (cases "parent_loop i fs")
    case True
    with Cons have "parent_exists fs i" by simp
    then show ?thesis by (auto simp: parent_exists_def)
  next
    case False
    with Cons.prems(2) obtain a where a: "attrs i f = Some a" "a \<noteq> IsNone"
      by (cases "attrs i f") (auto split: attr_value.splits)
    show ?thesis
    proof (cases a)
      case IsNone
      with a show ?thesis by simp
    next
      case (RelatedObject obj)
      with a show ?thesis by (simp add: parent_exists_def)
    next
      case (RelatedManager m live table)
      show ?thesis
      proof (cases "live = []")
        case lf: False
        with a RelatedManager show ?thesis by (simp add: parent_exists_def)
      next
        case True
        with a RelatedManager False Cons.prems(2)
        obtain cap ids where "audit_ids_to_notify_related_deletion i = Some cap" "cap f = Some ids"
          by (cases "audit_ids_to_notify_related_deletion i") (auto split: if_splits)
        moreover from this Cons.prems(1) have "ids \<noteq> []"
          by (auto simp: captures_nonempty_def ran_def)
        ultimately show ?thesis by (simp add: parent_exists_def)
      qed
    qed
  qed
qed

lemma skip_without_parent_no_parent:
  assumes "track_only_with_related w"
      and "\<not> parent_exists (case notify_related w of None \<Rightarrow> [] | Some ns \<Rightarrow> ns) i"
      and "captures_nonempty i"
    shows "skip_without_parent w i = Inl TypeError \<or> skip_without_parent w i = Inr True"
proof (cases "notify_related w")
  case None
  with assms(1) show ?thesis by (simp add: skip_without_parent_def is_parent_object_exists_def)
next
  case (Some ns)
  with assms(2,3) have "\<not> parent_loop i ns" using parent_loop_parent_exists by auto
  with Some assms(1) show ?thesis by (simp add: skip_without_parent_def is_parent_object_exists_def)
qed

text \<open>
  C2. On a creation event under a policy that requires a parent, when no parent exists
  in the sense of the claim (no notify relation resolves to a single entity or to a
  collection with members, and none has a non-empty capture of severed ids), nothing is
  persisted: the history is what it was, so there is neither a record nor a cascade,
  and the instance is untouched. The instance carries only captures that
  \<^verbatim>\<open>on_pre_delete\<close> wrote, which are never empty.
\<close>

theorem no_parent_no_record:
  assumes "track_only_with_related w"
      and "\<not> parent_exists (case notify_related w of None \<Rightarrow> [] | Some ns \<Rightarrow> ns) i"
      and "captures_nonempty i"
    shows "trails (on_post_save_create w cls i created st) = saved st \<and>
           inst (on_post_save_create w cls i created st) = i"
  using skip_without_parent_no_parent [OF assms]
  by (auto simp: on_post_save_create_def unchanged_def)

theorem no_parent_no_record_witness:
  "track_only_with_related comment_watcher \<and>
   \<not> parent_exists [''post''] parentless_comment \<and>
   captures_nonempty parentless_comment \<and>
   \<not> DISABLE_AUDIT_TRAIL world_on \<and>
   trails (on_post_save_create comment_watcher comment_model parentless_comment True world_on) = []"
proof -
  have a: "track_only_with_related comment_watcher"
    by (simp add: comment_watcher_def AuditTrailWatcher_def)
  have n: "notify_related comment_watcher = Some [''post'']"
    by (simp add: comment_watcher_def AuditTrailWatcher_def)
  have b: "\<not> parent_exists [''post''] parentless_comment"
    by (simp add: parent_exists_def parentless_comment_def)
  have c: "captures_nonempty parentless_comment"
    by (simp add: captures_nonempty_def parentless_comment_def)
  have d: "\<not> DISABLE_AUDIT_TRAIL world_on" "saved world_on = []"
    by (simp_all add: world_on_def)
  from b n have b': "\<not> parent_exists (case notify_related comment_watcher of None \<Rightarrow> [] | Some ns \<Rightarrow> ns)
                        parentless_comment" by simp
  from no_parent_no_record [OF a b' c, of comment_model True world_on] a b c d
  show ?thesis by simp
qed

section \<open>Properties of the hooks\<close>

lemma create_deleted_related_loop_appends:
  "\<exists>objs. snd (create_deleted_related_loop i tid ns store) = store @ map (related_change tid) objs"
proof (induction ns arbitrary: store)
  case Nil
  have "snd (create_deleted_related_loop i tid [] store) = store @ map (related_change tid) []" by simp
  then show ?case by blast
next
  case (Cons f fs)
  have stop: "\<exists>objs. store = store @ map (related_change tid) objs"
    by (rule exI [of _ "[]"]) simp
  have step: "\<exists>objs. snd (create_deleted_related_loop i tid fs (notify_objects tid xs store)) =
                 store @ map (related_change tid) objs" for xs
  proof -
    from Cons.IH [of "store @ map (related_change tid) xs"]
    obtain objs where "snd (create_deleted_related_loop i tid fs (store @ map (related_change tid) xs))
          = (store @ map (related_change tid) xs) @ map (related_change tid) objs" by blast
    then have "snd (create_deleted_related_loop i tid fs (notify_objects tid xs store)) =
              store @ map (related_change tid) (xs @ objs)"
      by (simp add: notify_objects_eq)
    then show ?thesis by blast
  qed
  show ?case
    using stop step Cons.IH [of store]
    by (simp split: option.splits attr_value.splits list.splits del: notify_objects.simps)
qed

lemma create_deleted_related_audit_trail_appends:
  "\<exists>objs. snd (create_deleted_related_audit_trail w i tid store) = store @ map (related_change tid) objs"
proof -
  have stop: "\<exists>objs. store = store @ map (related_change tid) objs"
    by (rule exI [of _ "[]"]) simp
  show ?thesis
    using stop create_deleted_related_loop_appends [of i tid _ store]
    by (simp add: create_deleted_related_audit_trail_def split: option.splits list.splits
             del: create_deleted_related_loop.simps)
qed

text \<open>
  What a hook that has passed the gates leaves in the history: the record of the event,
  with the change set of the diff or with none when the diff raised, and behind it the
  cascade records.
\<close>

lemma on_post_save_create_raises:
  assumes "\<not> DISABLE_AUDIT_TRAIL st"
      and "skip_without_parent w i = Inr False"
      and "get_changes w cls (Some Map.empty) (Some (serialize_object w cls (vals i))) = Inl e"
    shows "on_post_save_create w cls i True st =
             \<lparr> raised = Some e, inst = i,
               trails = saved st @ [history_record Created (ref i) Map.empty] \<rparr>"
  using assms
  by (simp add: on_post_save_create_def generate_trail_def history_record_def Let_def)

lemma on_post_delete_raises:
  assumes "\<not> DISABLE_AUDIT_TRAIL st"
      and "skip_without_parent w i = Inr False"
      and "get_changes w cls (Some (serialize_object w cls (vals i))) (Some Map.empty) = Inl e"
    shows "on_post_delete w cls i st =
             \<lparr> raised = Some e, inst = i,
               trails = saved st @ [history_record Deleted (ref i) Map.empty] \<rparr>"
  using assms
  by (simp add: on_post_delete_def generate_trail_def history_record_def Let_def)

lemma on_post_save_create_persists:
  assumes "\<not> DISABLE_AUDIT_TRAIL st"
      and "skip_without_parent w i = Inr False"
      and "get_changes w cls (Some Map.empty) (Some (serialize_object w cls (vals i))) = Inr d"
    shows "\<exists>objs. trails (on_post_save_create w cls i True st) =
             saved st @ history_record Created (ref i) d # map (related_change (length (saved st))) objs"
proof -
  obtain objs where
    "snd (create_related_audit_trail w
            (i\<lparr> original_values := Some (serialize_object w cls (vals i)) \<rparr>)
            (length (saved st)) (saved st @ [history_record Created (ref i) d])) =
       (saved st @ [history_record Created (ref i) d]) @ map (related_change (length (saved st))) objs"
    using create_related_audit_trail_appends by blast
  with assms have "trails (on_post_save_create w cls i True st) =
             saved st @ history_record Created (ref i) d # map (related_change (length (saved st))) objs"
    by (simp add: on_post_save_create_def save_def generate_trail_def history_record_def
                  Let_def case_prod_beta)
  then show ?thesis by blast
qed

lemma on_post_delete_persists:
  assumes "\<not> DISABLE_AUDIT_TRAIL st"
      and "skip_without_parent w i = Inr False"
      and "get_changes w cls (Some (serialize_object w cls (vals i))) (Some Map.empty) = Inr d"
    shows "\<exists>objs. trails (on_post_delete w cls i st) =
             saved st @ history_record Deleted (ref i) d # map (related_change (length (saved st))) objs"
proof -
  obtain objs where
    "snd (create_deleted_related_audit_trail w i
            (length (saved st)) (saved st @ [history_record Deleted (ref i) d])) =
       (saved st @ [history_record Deleted (ref i) d]) @ map (related_change (length (saved st))) objs"
    using create_deleted_related_audit_trail_appends by blast
  with assms have "trails (on_post_delete w cls i st) =
             saved st @ history_record Deleted (ref i) d # map (related_change (length (saved st))) objs"
    by (simp add: on_post_delete_def save_def generate_trail_def history_record_def
                  Let_def case_prod_beta)
  then show ?thesis by blast
qed

lemma on_post_save_update_persists:
  assumes "\<not> DISABLE_AUDIT_TRAIL st"
      and "skip_without_parent w i = Inr False"
      and "original_values i = Some before"
      and "get_changes w cls (Some before) (Some (serialize_object w cls (vals i))) = Inr d"
      and "d \<noteq> Map.empty"
    shows "\<exists>objs. trails (on_post_save_update w cls i False st) =
             saved st @ history_record Updated (ref i) d # map (related_change (length (saved st))) objs"
proof -
  obtain objs where
    "snd (create_related_audit_trail w
            (i\<lparr> original_values := Some (serialize_object w cls (vals i)) \<rparr>)
            (length (saved st)) (saved st @ [history_record Updated (ref i) d])) =
       (saved st @ [history_record Updated (ref i) d]) @ map (related_change (length (saved st))) objs"
    using create_related_audit_trail_appends by blast
  with assms have "trails (on_post_save_update w cls i False st) =
             saved st @ history_record Updated (ref i) d # map (related_change (length (saved st))) objs"
    by (simp add: on_post_save_update_def save_def generate_trail_def history_record_def
                  Let_def case_prod_beta)
  then show ?thesis by blast
qed

lemma on_post_save_create_recorded:
  assumes "\<not> DISABLE_AUDIT_TRAIL st"
      and "skip_without_parent w i = Inr False"
    shows "\<exists>objs. trails (on_post_save_create w cls i True st) =
             saved st @
             history_record Created (ref i)
               (recorded_changes (get_changes w cls (Some Map.empty) (Some (serialize_object w cls (vals i))))) #
             map (related_change (length (saved st))) objs"
proof (cases "get_changes w cls (Some Map.empty) (Some (serialize_object w cls (vals i)))")
  case (Inl e)
  from on_post_save_create_raises [OF assms Inl]
  have "trails (on_post_save_create w cls i True st) =
          saved st @ history_record Created (ref i) Map.empty # map (related_change (length (saved st))) []"
    by simp
  with Inl show ?thesis unfolding recorded_changes_def by (metis sum.case(1))
next
  case (Inr d)
  from on_post_save_create_persists [OF assms Inr] Inr show ?thesis
    by (simp add: recorded_changes_def)
qed

lemma on_post_delete_recorded:
  assumes "\<not> DISABLE_AUDIT_TRAIL st"
      and "skip_without_parent w i = Inr False"
    shows "\<exists>objs. trails (on_post_delete w cls i st) =
             saved st @
             history_record Deleted (ref i)
               (recorded_changes (get_changes w cls (Some (serialize_object w cls (vals i))) (Some Map.empty))) #
             map (related_change (length (saved st))) objs"
proof (cases "get_changes w cls (Some (serialize_object w cls (vals i))) (Some Map.empty)")
  case (Inl e)
  from on_post_delete_raises [OF assms Inl]
  have "trails (on_post_delete w cls i st) =
          saved st @ history_record Deleted (ref i) Map.empty # map (related_change (length (saved st))) []"
    by simp
  with Inl show ?thesis unfolding recorded_changes_def by (metis sum.case(1))
next
  case (Inr d)
  from on_post_delete_persists [OF assms Inr] Inr show ?thesis
    by (simp add: recorded_changes_def)
qed

text \<open>Either nothing is persisted or the gates were passed.\<close>

lemma on_post_save_create_cases:
  "trails (on_post_save_create w cls i created st) = saved st \<or>
   (created \<and> \<not> DISABLE_AUDIT_TRAIL st \<and> skip_without_parent w i = Inr False)"
  by (simp add: on_post_save_create_def unchanged_def split: sum.splits bool.splits)

lemma on_post_save_update_cases:
  "trails (on_post_save_update w cls i created st) = saved st \<or>
   (\<not> created \<and> \<not> DISABLE_AUDIT_TRAIL st \<and> skip_without_parent w i = Inr False \<and>
    (\<exists>before d. original_values i = Some before \<and>
       get_changes w cls (Some before) (Some (serialize_object w cls (vals i))) = Inr d \<and> d \<noteq> Map.empty))"
  by (simp add: on_post_save_update_def unchanged_def split: sum.splits bool.splits option.splits)

lemma on_post_delete_cases:
  "trails (on_post_delete w cls i st) = saved st \<or>
   (\<not> DISABLE_AUDIT_TRAIL st \<and> skip_without_parent w i = Inr False)"
  by (simp add: on_post_delete_def unchanged_def split: sum.splits bool.splits)

lemma filter_related_change:
  "a \<noteq> RelatedChange \<Longrightarrow> filter (\<lambda>r. action r = a) (map (related_change n) objs) = []"
  by (induction objs) (simp_all add: related_change_def)

lemma one_identity_record:
  assumes "a \<noteq> RelatedChange"
      and "ts = old @ history_record a obj d # map (related_change n) objs"
    shows "filter (\<lambda>r. action r = a) (drop (length old) ts) = [history_record a obj d]"
  using assms by (simp add: filter_related_change history_record_def)

text \<open>
  C4. For an event that passes the disable gate and the parent gate: an update whose
  change set is empty persists nothing, emits no cascade and leaves the instance, with
  its stored before-snapshot, as it was; a creation or a deletion always persists
  exactly one record of kind \<^verbatim>\<open>Created\<close> or \<^verbatim>\<open>Deleted\<close>, followed only by cascade records:
  the record carries the change set of the diff, empty or not, and is there without
  changes even when the diff raises.
\<close>

theorem identity_events_recorded:
  assumes "\<not> DISABLE_AUDIT_TRAIL st"
      and "skip_without_parent w i = Inr False"
    shows
   "(\<forall>before. original_values i = Some before \<longrightarrow>
        get_changes w cls (Some before) (Some (serialize_object w cls (vals i))) = Inr Map.empty \<longrightarrow>
        on_post_save_update w cls i False st = \<lparr> raised = None, inst = i, trails = saved st \<rparr>) \<and>
    (\<exists>objs. trails (on_post_save_create w cls i True st) =
        saved st @
        history_record Created (ref i)
          (recorded_changes (get_changes w cls (Some Map.empty) (Some (serialize_object w cls (vals i))))) #
        map (related_change (length (saved st))) objs) \<and>
    filter (\<lambda>r. action r = Created) (drop (length (saved st)) (trails (on_post_save_create w cls i True st)))
      = [history_record Created (ref i)
          (recorded_changes (get_changes w cls (Some Map.empty) (Some (serialize_object w cls (vals i)))))] \<and>
    (\<exists>objs. trails (on_post_delete w cls i st) =
        saved st @
        history_record Deleted (ref i)
          (recorded_changes (get_changes w cls (Some (serialize_object w cls (vals i))) (Some Map.empty))) #
        map (related_change (length (saved st))) objs) \<and>
    filter (\<lambda>r. action r = Deleted) (drop (length (saved st)) (trails (on_post_delete w cls i st)))
      = [history_record Deleted (ref i)
          (recorded_changes (get_changes w cls (Some (serialize_object w cls (vals i))) (Some Map.empty)))]"
proof (intro conjI allI impI)
  fix before
  assume "original_values i = Some before"
     and "get_changes w cls (Some before) (Some (serialize_object w cls (vals i))) = Inr Map.empty"
  with assms show "on_post_save_update w cls i False st = \<lparr> raised = None, inst = i, trails = saved st \<rparr>"
    by (simp add: on_post_save_update_def unchanged_def)
next
  let ?d = "recorded_changes (get_changes w cls (Some Map.empty) (Some (serialize_object w cls (vals i))))"
  from on_post_save_create_recorded [OF assms]
  show c: "\<exists>objs. trails (on_post_save_create w cls i True st) =
           saved st @ history_record Created (ref i) ?d # map (related_change (length (saved st))) objs" .
  then obtain objs where "trails (on_post_save_create w cls i True st) =
           saved st @ history_record Created (ref i) ?d # map (related_change (length (saved st))) objs"
    by blast
  then show "filter (\<lambda>r. action r = Created)
               (drop (length (saved st)) (trails (on_post_save_create w cls i True st)))
             = [history_record Created (ref i) ?d]"
    by (rule one_identity_record [rotated]) simp
next
  let ?d = "recorded_changes (get_changes w cls (Some (serialize_object w cls (vals i))) (Some Map.empty))"
  from on_post_delete_recorded [OF assms]
  show "\<exists>objs. trails (on_post_delete w cls i st) =
           saved st @ history_record Deleted (ref i) ?d # map (related_change (length (saved st))) objs" .
  then obtain objs where "trails (on_post_delete w cls i st) =
           saved st @ history_record Deleted (ref i) ?d # map (related_change (length (saved st))) objs"
    by blast
  then show "filter (\<lambda>r. action r = Deleted)
               (drop (length (saved st)) (trails (on_post_delete w cls i st)))
             = [history_record Deleted (ref i) ?d]"
    by (rule one_identity_record [rotated]) simp
qed

lemma post_watcher_no_gate: "skip_without_parent post_watcher i = Inr False"
  by (simp add: skip_without_parent_def post_watcher_def AuditTrailWatcher_def)

lemma blank_post_snapshot:
  "serialize_object post_watcher post_model (vals blank_post) =
     [''title'' \<mapsto> PNone, ''status'' \<mapsto> PNone, ''author'' \<mapsto> PNone]"
  by (simp add: serialize_object_def post_defs AuditTrailWatcher_def blank_post_def blank_vals_def)

lemma post_snapshot:
  "serialize_object post_watcher post_model post_vals =
     [''title'' \<mapsto> PStr ''Hi'', ''status'' \<mapsto> PInt 1, ''author'' \<mapsto> PInt 1]"
  by (simp add: serialize_object_def post_defs AuditTrailWatcher_def post_vals_def)

lemma blank_created: "get_changes post_watcher post_model (Some Map.empty)
     (Some (serialize_object post_watcher post_model (vals blank_post))) = Inr Map.empty"
  unfolding blank_post_snapshot by (simp add: post_defs differ_defs)

lemma blank_deleted: "get_changes post_watcher post_model
     (Some (serialize_object post_watcher post_model (vals blank_post))) (Some Map.empty) = Inr Map.empty"
  unfolding blank_post_snapshot by (simp add: post_defs differ_defs)

lemma loaded_unchanged: "get_changes post_watcher post_model
     (Some (serialize_object post_watcher post_model post_vals))
     (Some (serialize_object post_watcher post_model (vals loaded_post))) = Inr Map.empty"
  unfolding loaded_post_def fresh_post_def
  by (simp add: post_snapshot) (simp add: post_defs differ_defs)

lemma orphan_snapshot:
  "serialize_object post_watcher post_model (vals orphan_post) =
     [''title'' \<mapsto> PStr ''Hi'', ''status'' \<mapsto> PNone, ''author'' \<mapsto> PInt 7]"
  by (simp add: serialize_object_def post_defs AuditTrailWatcher_def orphan_post_def orphan_vals_def)

lemma orphan_created: "get_changes post_watcher post_model (Some Map.empty)
     (Some (serialize_object post_watcher post_model (vals orphan_post))) = Inl DoesNotExist"
  unfolding orphan_snapshot by (simp add: post_defs differ_defs)

theorem identity_events_recorded_witness:
  "\<not> DISABLE_AUDIT_TRAIL world_on \<and>
   skip_without_parent post_watcher loaded_post = Inr False \<and>
   skip_without_parent post_watcher blank_post = Inr False \<and>
   skip_without_parent post_watcher orphan_post = Inr False \<and>
   on_post_save_update post_watcher post_model loaded_post False world_on =
     \<lparr> raised = None, inst = loaded_post, trails = [] \<rparr> \<and>
   filter (\<lambda>r. action r = Created)
     (trails (on_post_save_create post_watcher post_model blank_post True world_on)) =
     [history_record Created (''Post'', 4) Map.empty] \<and>
   filter (\<lambda>r. action r = Deleted)
     (trails (on_post_delete post_watcher post_model blank_post world_on)) =
     [history_record Deleted (''Post'', 4) Map.empty] \<and>
   get_changes post_watcher post_model (Some Map.empty)
     (Some (serialize_object post_watcher post_model (vals orphan_post))) = Inl DoesNotExist \<and>
   filter (\<lambda>r. action r = Created)
     (trails (on_post_save_create post_watcher post_model orphan_post True world_on)) =
     [history_record Created (''Post'', 8) Map.empty]"
proof -
  have on: "\<not> DISABLE_AUDIT_TRAIL world_on" "saved world_on = []"
    by (simp_all add: world_on_def)
  have ov: "original_values loaded_post = Some (serialize_object post_watcher post_model post_vals)"
    by (simp add: loaded_post_def)
  have r: "ref blank_post = (''Post'', 4)" "ref orphan_post = (''Post'', 8)"
    by (simp_all add: blank_post_def orphan_post_def)
  from identity_events_recorded [OF on(1) post_watcher_no_gate, of loaded_post post_model]
       ov loaded_unchanged on(2)
  have u: "on_post_save_update post_watcher post_model loaded_post False world_on =
     \<lparr> raised = None, inst = loaded_post, trails = [] \<rparr>" by simp
  from identity_events_recorded [OF on(1) post_watcher_no_gate, of blank_post post_model]
       blank_created blank_deleted on(2) r
  have c: "filter (\<lambda>r. action r = Created)
     (trails (on_post_save_create post_watcher post_model blank_post True world_on)) =
     [history_record Created (''Post'', 4) Map.empty]"
   and d: "filter (\<lambda>r. action r = Deleted)
     (trails (on_post_delete post_watcher post_model blank_post world_on)) =
     [history_record Deleted (''Post'', 4) Map.empty]"
    by (simp_all add: recorded_changes_def)
  from identity_events_recorded [OF on(1) post_watcher_no_gate, of orphan_post post_model]
       orphan_created on(2) r
  have o: "filter (\<lambda>r. action r = Created)
     (trails (on_post_save_create post_watcher post_model orphan_post True world_on)) =
     [history_record Created (''Post'', 8) Map.empty]"
    by (simp add: recorded_changes_def)
  from on(1) post_watcher_no_gate u c d o orphan_created show ?thesis by simp
qed

text \<open>
  The creation of the post whose author has no row: the diff raises after the manager
  has stored the record, which stays in the history without changes.
\<close>

lemma orphan_creation_example:
  "on_post_save_create post_watcher post_model orphan_post True world_on =
     \<lparr> raised = Some DoesNotExist, inst = orphan_post,
       trails = [history_record Created (''Post'', 8) Map.empty] \<rparr>"
proof -
  have on: "\<not> DISABLE_AUDIT_TRAIL world_on" "saved world_on = []"
    by (simp_all add: world_on_def)
  have r: "ref orphan_post = (''Post'', 8)" by (simp add: orphan_post_def)
  from on_post_save_create_raises [OF on(1) post_watcher_no_gate orphan_created] on(2) r
  show ?thesis by simp
qed

section \<open>The disable switch, the parent gate and excluded fields\<close>

text \<open>
  C8, as the code has it. With the process-wide switch set, \<^verbatim>\<open>on_post_save_create\<close>,
  \<^verbatim>\<open>on_post_save_update\<close>, \<^verbatim>\<open>on_pre_delete\<close> and \<^verbatim>\<open>on_post_delete\<close> are skipped whole:
  they raise nothing, leave the instance (its before-snapshot and its captures) as it
  was and persist nothing, so no record and no cascade. \<^verbatim>\<open>on_post_init\<close> does not read
  the switch: it stores the snapshot as the before-snapshot all the same, and persists
  nothing.
\<close>

theorem disabled_hooks_skip:
  assumes "DISABLE_AUDIT_TRAIL st"
    shows "on_post_save_create w cls i created st = \<lparr> raised = None, inst = i, trails = saved st \<rparr> \<and>
           on_post_save_update w cls i created st = \<lparr> raised = None, inst = i, trails = saved st \<rparr> \<and>
           on_pre_delete w i st = \<lparr> raised = None, inst = i, trails = saved st \<rparr> \<and>
           on_post_delete w cls i st = \<lparr> raised = None, inst = i, trails = saved st \<rparr> \<and>
           on_post_init w cls i st =
             \<lparr> raised = None,
               inst = i\<lparr> original_values := Some (serialize_object w cls (vals i)) \<rparr>,
               trails = saved st \<rparr>"
  using assms
  by (simp add: on_post_save_create_def on_post_save_update_def on_pre_delete_def
                on_post_delete_def on_post_init_def unchanged_def)

theorem disabled_hooks_skip_witness:
  "DISABLE_AUDIT_TRAIL world_off \<and>
   on_post_save_create post_watcher post_model fresh_post True world_off =
     \<lparr> raised = None, inst = fresh_post, trails = [] \<rparr> \<and>
   on_post_delete post_watcher post_model fresh_post world_off =
     \<lparr> raised = None, inst = fresh_post, trails = [] \<rparr> \<and>
   original_values (inst (on_post_init post_watcher post_model fresh_post world_off)) =
     Some [''title'' \<mapsto> PStr ''Hi'', ''status'' \<mapsto> PInt 1, ''author'' \<mapsto> PInt 1]"
proof -
  have off: "DISABLE_AUDIT_TRAIL world_off" "saved world_off = []"
    by (simp_all add: world_off_def)
  have v: "vals fresh_post = post_vals" by (simp add: fresh_post_def)
  from disabled_hooks_skip [OF off(1), of post_watcher post_model fresh_post True] off v post_snapshot
  show ?thesis by simp
qed

text \<open>
  The claim of C8 fails for the instance-init entry point: with the switch set,
  \<^verbatim>\<open>on_post_init\<close> still replaces the stored before-snapshot of the post.
\<close>

theorem post_init_not_gated_counterexample:
  "DISABLE_AUDIT_TRAIL world_off \<and>
   original_values fresh_post = None \<and>
   original_values (inst (on_post_init post_watcher post_model fresh_post world_off)) =
     Some [''title'' \<mapsto> PStr ''Hi'', ''status'' \<mapsto> PInt 1, ''author'' \<mapsto> PInt 1] \<and>
   inst (on_post_init post_watcher post_model fresh_post world_off) \<noteq> fresh_post"
proof -
  have a: "original_values (inst (on_post_init post_watcher post_model fresh_post world_off)) =
     Some [''title'' \<mapsto> PStr ''Hi'', ''status'' \<mapsto> PInt 1, ''author'' \<mapsto> PInt 1]"
    by (simp add: on_post_init_def fresh_post_def post_snapshot)
  have b: "original_values fresh_post = None" by (simp add: fresh_post_def)
  from a b have "inst (on_post_init post_watcher post_model fresh_post world_off) \<noteq> fresh_post"
    by (metis option.distinct(1))
  with a b show ?thesis by (simp add: world_off_def)
qed

text \<open>
  C9 at its failing input. Under a policy that requires a parent and has no notify
  relations (\<^verbatim>\<open>AuditTrailWatcher(track_only_with_related=True)\<close>), the parent gate
  iterates \<^verbatim>\<open>None\<close>: creation, update and deletion raise \<^verbatim>\<open>TypeError\<close> where the claim
  asks for a normal early return. \<^verbatim>\<open>on_pre_delete\<close>, which tests the list first, returns.
\<close>

theorem missing_notify_list_raises:
  "\<not> DISABLE_AUDIT_TRAIL world_on \<and>
   track_only_with_related lonely_watcher \<and>
   notify_related lonely_watcher = None \<and>
   on_post_save_create lonely_watcher post_model fresh_post True world_on =
     \<lparr> raised = Some TypeError, inst = fresh_post, trails = [] \<rparr> \<and>
   on_post_save_update lonely_watcher post_model loaded_post False world_on =
     \<lparr> raised = Some TypeError, inst = loaded_post, trails = [] \<rparr> \<and>
   on_post_delete lonely_watcher post_model loaded_post world_on =
     \<lparr> raised = Some TypeError, inst = loaded_post, trails = [] \<rparr> \<and>
   on_pre_delete lonely_watcher loaded_post world_on =
     \<lparr> raised = None, inst = loaded_post, trails = [] \<rparr>"
  by (simp add: on_post_save_create_def on_post_save_update_def on_post_delete_def on_pre_delete_def
                unchanged_def skip_without_parent_def is_parent_object_exists_def
                lonely_watcher_def AuditTrailWatcher_def world_on_def)

lemma loop_dom:
  "get_changes_loop cls old new fs d = Inr d' \<Longrightarrow> k \<in> dom d' \<Longrightarrow>
     k \<in> dom d \<or> (\<exists>c. diff_field cls old new k = Inr (Some c))"
proof (induction fs arbitrary: d)
  case Nil
  then show ?case by simp
next
  case (Cons f fs)
  show ?case
  proof (cases "diff_field cls old new f")
    case (Inl e)
    with Cons.prems show ?thesis by simp
  next
    case (Inr r)
    show ?thesis
    proof (cases r)
      case None
      with Inr Cons show ?thesis by simp
    next
      case (Some c)
      with Inr Cons.prems have "get_changes_loop cls old new fs (d(f \<mapsto> c)) = Inr d'"
        by simp
      from Cons.IH [OF this Cons.prems(2)]
      have "k \<in> dom (d(f \<mapsto> c)) \<or> (\<exists>c. diff_field cls old new k = Inr (Some c))" .
      then show ?thesis
      proof
        assume "k \<in> dom (d(f \<mapsto> c))"
        then have "k = f \<or> k \<in> dom d" by (simp only: dom_fun_upd option.distinct if_False) blast
        with Inr Some show ?thesis by blast
      qed blast
    qed
  qed
qed

lemma diff_field_Some_not_both_None:
  "diff_field cls old new f = Inr (Some c) \<Longrightarrow> old f \<noteq> None \<or> new f \<noteq> None"
  by (auto simp: diff_field_def snapshot_get_def get_fk_value_def get_choice_value_def py_ne_def
           split: sum.splits if_splits prod.splits option.splits)

lemma get_changes_dom:
  assumes "get_changes w cls (Some old) (Some new) = Inr d"
    shows "dom d \<subseteq> dom old \<union> dom new"
proof
  fix k assume "k \<in> dom d"
  with assms loop_dom [of cls old new "diff_fields w cls" Map.empty d k]
  obtain c where "diff_field cls old new k = Inr (Some c)"
    by (auto simp: get_changes_def)
  from diff_field_Some_not_both_None [OF this] show "k \<in> dom old \<union> dom new" by auto
qed

lemma serialize_fields_dom:
  "k \<in> dom (serialize_fields w vs fs data) \<Longrightarrow> k \<in> dom data \<or> k \<notin> set (excluded_fields w)"
proof (induction fs arbitrary: data)
  case Nil
  then show ?case by simp
next
  case (Cons f fs)
  show ?case
  proof (cases "(case fields' w of None \<Rightarrow> False | Some tracked \<Rightarrow> name f \<notin> set tracked)
                 \<or> name f \<in> set (excluded_fields w)")
    case True
    with Cons.prems have "k \<in> dom (serialize_fields w vs fs data)" by (simp add: Let_def)
    then show ?thesis by (rule Cons.IH)
  next
    case False
    with Cons.prems have "k \<in> dom (serialize_fields w vs fs (data(name f \<mapsto> vs (name f))))"
      by (simp add: Let_def)
    then have "k \<in> dom (data(name f \<mapsto> vs (name f))) \<or> k \<notin> set (excluded_fields w)"
      by (rule Cons.IH)
    moreover have "name f \<notin> set (excluded_fields w)" using False by simp
    ultimately show ?thesis by (cases "k = name f") auto
  qed
qed

lemma serialize_object_dom:
  "x \<in> set (excluded_fields w) \<Longrightarrow> x \<notin> dom (serialize_object w cls vs)"
  using serialize_fields_dom [of x w vs "meta_fields cls" Map.empty]
  by (auto simp: serialize_object_def)

lemma recorded_changes_dom:
  assumes "\<And>d. g = Inr d \<Longrightarrow> x \<notin> dom d"
    shows "x \<notin> dom (recorded_changes g)"
  using assms by (cases g) (simp_all add: recorded_changes_def)

lemma new_records_omit:
  assumes "ts = old @ history_record a obj d # map (related_change n) objs"
      and "x \<notin> dom d"
      and "r \<in> set (drop (length old) ts)"
    shows "x \<notin> dom (changes r)"
  using assms by (auto simp: history_record_def related_change_def)

text \<open>
  C10. No record that a lifecycle hook adds to the history has an excluded field in its
  change set, whatever the tracked list and the declared fields are; and the excluded
  list of every watcher the constructor builds holds \<^verbatim>\<open>'id'\<close>. The before-snapshot of
  the instance, when it has one, is a snapshot of this watcher.
\<close>

theorem changes_omit_excluded_fields:
  assumes "snapshot_of w cls (original_values i)"
      and "x \<in> set (excluded_fields w)"
    shows "(\<forall>r \<in> set (drop (length (saved st)) (trails (on_post_save_create w cls i created st))).
              x \<notin> dom (changes r)) \<and>
           (\<forall>r \<in> set (drop (length (saved st)) (trails (on_post_save_update w cls i created st))).
              x \<notin> dom (changes r)) \<and>
           (\<forall>r \<in> set (drop (length (saved st)) (trails (on_post_delete w cls i st))).
              x \<notin> dom (changes r)) \<and>
           (\<forall>r \<in> set (drop (length (saved st)) (trails (on_pre_delete w i st))).
              x \<notin> dom (changes r)) \<and>
           (\<forall>r \<in> set (drop (length (saved st)) (trails (on_post_init w cls i st))).
              x \<notin> dom (changes r)) \<and>
           ''id'' \<in> set (excluded_fields (AuditTrailWatcher flds track notify only_with_related excluded))"
proof -
  let ?ser = "serialize_object w cls (vals i)"
  have ser: "x \<notin> dom ?ser" using assms(2) by (rule serialize_object_dom)
  have emp: "x \<notin> dom (Map.empty :: snapshot)" by simp
  have c: "\<forall>r \<in> set (drop (length (saved st)) (trails (on_post_save_create w cls i created st))).
              x \<notin> dom (changes r)"
  proof (cases "trails (on_post_save_create w cls i created st) = saved st")
    case True
    then show ?thesis by simp
  next
    case False
    with on_post_save_create_cases [of w cls i created st]
    have g: "created" "\<not> DISABLE_AUDIT_TRAIL st" "skip_without_parent w i = Inr False" by blast+
    have "x \<notin> dom (recorded_changes (get_changes w cls (Some Map.empty) (Some ?ser)))"
    proof (rule recorded_changes_dom)
      fix d assume "get_changes w cls (Some Map.empty) (Some ?ser) = Inr d"
      from get_changes_dom [OF this] ser show "x \<notin> dom d" by auto
    qed
    moreover from on_post_save_create_recorded [OF g(2,3)] g(1)
    obtain objs where "trails (on_post_save_create w cls i created st) =
       saved st @ history_record Created (ref i)
         (recorded_changes (get_changes w cls (Some Map.empty) (Some ?ser))) #
       map (related_change (length (saved st))) objs"
      by auto
    ultimately show ?thesis using new_records_omit by blast
  qed
  have u: "\<forall>r \<in> set (drop (length (saved st)) (trails (on_post_save_update w cls i created st))).
              x \<notin> dom (changes r)"
  proof (cases "trails (on_post_save_update w cls i created st) = saved st")
    case True
    then show ?thesis by simp
  next
    case False
    with on_post_save_update_cases [of w cls i created st]
    obtain before d where g: "\<not> created" "\<not> DISABLE_AUDIT_TRAIL st" "skip_without_parent w i = Inr False"
        "original_values i = Some before"
        "get_changes w cls (Some before) (Some ?ser) = Inr d" "d \<noteq> Map.empty" by blast
    from assms g(4) have "x \<notin> dom before"
      by (auto simp: snapshot_of_def dest: serialize_object_dom)
    with get_changes_dom [OF g(5)] ser have "x \<notin> dom d" by auto
    moreover from on_post_save_update_persists [OF g(2,3,4,5,6)] g(1)
    obtain objs where "trails (on_post_save_update w cls i created st) =
       saved st @ history_record Updated (ref i) d # map (related_change (length (saved st))) objs"
      by auto
    ultimately show ?thesis using new_records_omit by blast
  qed
  have d: "\<forall>r \<in> set (drop (length (saved st)) (trails (on_post_delete w cls i st))).
              x \<notin> dom (changes r)"
  proof (cases "trails (on_post_delete w cls i st) = saved st")
    case True
    then show ?thesis by simp
  next
    case False
    with on_post_delete_cases [of w cls i st]
    have g: "\<not> DISABLE_AUDIT_TRAIL st" "skip_without_parent w i = Inr False" by blast+
    have "x \<notin> dom (recorded_changes (get_changes w cls (Some ?ser) (Some Map.empty)))"
    proof (rule recorded_changes_dom)
      fix d assume "get_changes w cls (Some ?ser) (Some Map.empty) = Inr d"
      from get_changes_dom [OF this] ser show "x \<notin> dom d" by auto
    qed
    moreover from on_post_delete_recorded [OF g]
    obtain objs where "trails (on_post_delete w cls i st) =
       saved st @ history_record Deleted (ref i)
         (recorded_changes (get_changes w cls (Some ?ser) (Some Map.empty))) #
       map (related_change (length (saved st))) objs"
      by auto
    ultimately show ?thesis using new_records_omit by blast
  qed
  have p: "trails (on_pre_delete w i st) = saved st"
    by (simp add: on_pre_delete_eq unchanged_def)
  have n: "trails (on_post_init w cls i st) = saved st"
    by (simp add: on_post_init_def)
  have idx: "''id'' \<in> set (excluded_fields (AuditTrailWatcher flds track notify only_with_related excluded))"
    by (simp add: AuditTrailWatcher_def split: option.splits list.splits)
  from c u d p n idx show ?thesis by simp
qed


lemma id_tracking_snapshot:
  "serialize_object id_tracking_watcher post_model post_vals = [''title'' \<mapsto> PStr ''Hi'']"
  by (simp add: serialize_object_def post_defs AuditTrailWatcher_def post_vals_def id_tracking_watcher_def)

lemma id_tracking_created:
  "trails (on_post_save_create id_tracking_watcher post_model fresh_post True world_on) =
     [history_record Created (''Post'', 3) [''title'' \<mapsto> \<lparr> old_value = PNone, new_value = PStr ''Hi'' \<rparr>]]"
proof -
  have g: "get_changes id_tracking_watcher post_model (Some Map.empty) (Some [''title'' \<mapsto> PStr ''Hi'']) =
             Inr [''title'' \<mapsto> \<lparr> old_value = PNone, new_value = PStr ''Hi'' \<rparr>]"
    by (simp add: id_tracking_watcher_def post_defs differ_defs)
  have v: "vals fresh_post = post_vals" "ref fresh_post = (''Post'', 3)"
    by (simp_all add: fresh_post_def)
  have w: "notify_related id_tracking_watcher = None" "\<not> track_only_with_related id_tracking_watcher"
    by (simp_all add: id_tracking_watcher_def AuditTrailWatcher_def)
  show ?thesis
    by (simp add: on_post_save_create_def skip_without_parent_def w v id_tracking_snapshot g
                  create_related_audit_trail_def save_def generate_trail_def history_record_def
                  world_on_def Let_def)
qed

lemma id_tracking_blank_snapshot:
  "serialize_object id_tracking_watcher post_model blank_vals = [''title'' \<mapsto> PNone]"
  by (simp add: serialize_object_def post_defs AuditTrailWatcher_def blank_vals_def id_tracking_watcher_def)

lemma id_tracking_updated:
  "trails (on_post_save_update id_tracking_watcher post_model edited_post False world_on) =
     [history_record Updated (''Post'', 3) [''title'' \<mapsto> \<lparr> old_value = PNone, new_value = PStr ''Hi'' \<rparr>]]"
proof -
  have g: "get_changes id_tracking_watcher post_model (Some [''title'' \<mapsto> PNone])
             (Some [''title'' \<mapsto> PStr ''Hi'']) =
             Inr [''title'' \<mapsto> \<lparr> old_value = PNone, new_value = PStr ''Hi'' \<rparr>]"
    by (simp add: id_tracking_watcher_def post_defs differ_defs)
  have v: "vals edited_post = post_vals" "ref edited_post = (''Post'', 3)"
          "original_values edited_post = Some [''title'' \<mapsto> PNone]"
    by (simp_all add: edited_post_def fresh_post_def id_tracking_blank_snapshot)
  have w: "notify_related id_tracking_watcher = None" "\<not> track_only_with_related id_tracking_watcher"
    by (simp_all add: id_tracking_watcher_def AuditTrailWatcher_def)
  have ne: "[''title'' \<mapsto> \<lparr> old_value = PNone, new_value = PStr ''Hi'' \<rparr>] \<noteq> Map.empty"
    by simp
  show ?thesis
    by (simp add: on_post_save_update_def skip_without_parent_def w v id_tracking_snapshot g
                  create_related_audit_trail_def save_def generate_trail_def history_record_def
                  world_on_def Let_def)
qed

theorem changes_omit_excluded_fields_witness:
  "snapshot_of id_tracking_watcher post_model (original_values fresh_post) \<and>
   snapshot_of id_tracking_watcher post_model (original_values edited_post) \<and>
   fields' id_tracking_watcher = Some [''id'', ''title''] \<and>
   ''id'' \<in> set (excluded_fields id_tracking_watcher) \<and>
   trails (on_post_save_create id_tracking_watcher post_model fresh_post True world_on) =
     [history_record Created (''Post'', 3) [''title'' \<mapsto> \<lparr> old_value = PNone, new_value = PStr ''Hi'' \<rparr>]] \<and>
   ''id'' \<notin> dom (changes (hd (trails
       (on_post_save_create id_tracking_watcher post_model fresh_post True world_on)))) \<and>
   trails (on_post_save_update id_tracking_watcher post_model edited_post False world_on) =
     [history_record Updated (''Post'', 3) [''title'' \<mapsto> \<lparr> old_value = PNone, new_value = PStr ''Hi'' \<rparr>]] \<and>
   ''id'' \<notin> dom (changes (hd (trails
       (on_post_save_update id_tracking_watcher post_model edited_post False world_on))))"
proof -
  have a: "snapshot_of id_tracking_watcher post_model (original_values fresh_post)"
    by (simp add: snapshot_of_def fresh_post_def)
  have a': "snapshot_of id_tracking_watcher post_model (original_values edited_post)"
    by (auto simp: snapshot_of_def edited_post_def)
  have b: "''id'' \<in> set (excluded_fields id_tracking_watcher)"
    by (simp add: id_tracking_watcher_def AuditTrailWatcher_def)
  have f: "fields' id_tracking_watcher = Some [''id'', ''title'']"
    by (simp add: id_tracking_watcher_def AuditTrailWatcher_def)
  have s: "saved world_on = []" by (simp add: world_on_def)
  have m: "hd (trails (on_post_save_create id_tracking_watcher post_model fresh_post True world_on))
             \<in> set (drop (length (saved world_on))
                   (trails (on_post_save_create id_tracking_watcher post_model fresh_post True world_on)))"
    by (simp add: s id_tracking_created)
  have m': "hd (trails (on_post_save_update id_tracking_watcher post_model edited_post False world_on))
             \<in> set (drop (length (saved world_on))
                   (trails (on_post_save_update id_tracking_watcher post_model edited_post False world_on)))"
    by (simp add: s id_tracking_updated)
  from changes_omit_excluded_fields [OF a b, of world_on True] m
  have c: "''id'' \<notin> dom (changes (hd (trails
       (on_post_save_create id_tracking_watcher post_model fresh_post True world_on))))"
    by blast
  from changes_omit_excluded_fields [OF a' b, of world_on False] m'
  have u: "''id'' \<notin> dom (changes (hd (trails
       (on_post_save_update id_tracking_watcher post_model edited_post False world_on))))"
    by blast
  from a a' b f id_tracking_created id_tracking_updated c u show ?thesis by blast
qed

section \<open>Properties of registration\<close>

text \<open>
  C7. The first registration of a type returns true, adds the type to the tracked set
  and attaches the policy; any registration of a type that is already tracked returns
  false and changes nothing: the registry (the tracked set and the policy attached by
  the first registration) is the same, and the second watcher is left as it was.
\<close>

theorem second_registration_is_noop:
  assumes "contribute_to_class w1 cls reg = (ok1, w1', reg1)"
    shows "(ok1 \<longleftrightarrow> cls \<notin> tracked_models reg) \<and>
           contribute_to_class w2 cls reg1 = (False, w2, reg1) \<and>
           (cls \<notin> tracked_models reg \<longrightarrow>
              tracked_models reg1 = insert cls (tracked_models reg) \<and>
              audit (classes reg1 cls) = Some (w1\<lparr> model_class := Some cls \<rparr>)) \<and>
           (cls \<in> tracked_models reg \<longrightarrow> reg1 = reg \<and> w1' = w1)"
  using assms by (auto simp: contribute_to_class_def Let_def split: if_splits)

theorem second_registration_is_noop_witness:
  "''Post'' \<notin> tracked_models empty_registry \<and>
   fst (contribute_to_class post_watcher ''Post'' empty_registry) \<and>
   contribute_to_class lonely_watcher ''Post''
       (snd (snd (contribute_to_class post_watcher ''Post'' empty_registry))) =
     (False, lonely_watcher, snd (snd (contribute_to_class post_watcher ''Post'' empty_registry))) \<and>
   tracked_models (snd (snd (contribute_to_class post_watcher ''Post'' empty_registry))) = {''Post''} \<and>
   audit (classes (snd (snd (contribute_to_class post_watcher ''Post'' empty_registry))) ''Post'') =
     Some (post_watcher\<lparr> model_class := Some ''Post'' \<rparr>)"
proof -
  obtain ok1 w1' reg1 where c: "contribute_to_class post_watcher ''Post'' empty_registry = (ok1, w1', reg1)"
    by (cases "contribute_to_class post_watcher ''Post'' empty_registry") auto
  have t: "''Post'' \<notin> tracked_models empty_registry" "tracked_models empty_registry = {}"
    by (simp_all add: empty_registry_def)
  from second_registration_is_noop [OF c, of lonely_watcher] t c
  show ?thesis by simp
qed

text \<open>Registration keeps the tracked set and the \<^verbatim>\<open>audit\<close> attributes in step.\<close>

lemma contribute_to_class_consistent:
  "registered_consistently reg c \<Longrightarrow> contribute_to_class w cls reg = (ok, w', reg') \<Longrightarrow>
     registered_consistently reg' c"
  by (auto simp: registered_consistently_def contribute_to_class_def Let_def split: if_splits)

lemma connect_frame:
  "classes (connect sg h sender reg) = classes reg"
  "tracked_models (connect sg h sender reg) = tracked_models reg"
  "set (receivers (connect sg h sender reg)) = insert (sg, h, sender) (set (receivers reg))"
  by (auto simp: connect_def)

lemma connect_signals_frame:
  "classes (connect_signals w reg) = classes reg"
  "tracked_models (connect_signals w reg) = tracked_models reg"
  "set (receivers (connect_signals w reg)) =
     set [(post_save, h_on_post_save_create, model_class w),
          (post_init, h_on_post_init, model_class w),
          (post_save, h_on_post_save_update, model_class w),
          (pre_delete, h_on_pre_delete, model_class w),
          (post_delete, h_on_post_delete, model_class w)] \<union> set (receivers reg)"
  by (auto simp: connect_signals_def connect_frame)

lemma ensure_watcher_registered:
  assumes "registered_consistently reg rm" and "audit (classes reg rm) = Some a"
    shows "ensure_watcher rm reg = reg"
  using assms by (simp add: ensure_watcher_def hasattr_def)

lemma ensure_watcher_unregistered:
  assumes "registered_consistently reg rm" and "audit (classes reg rm) = None"
    shows "audit (classes (ensure_watcher rm reg) rm) =
             Some ((AuditTrailWatcher None None None True None)\<lparr> model_class := Some rm \<rparr>)"
      and "tracked_models (ensure_watcher rm reg) = insert rm (tracked_models reg)"
      and "set (signal_wiring rm) \<subseteq> set (receivers (ensure_watcher rm reg))"
      and "\<And>c. c \<noteq> rm \<Longrightarrow> classes (ensure_watcher rm reg) c = classes reg c"
  using assms
  by (auto simp: ensure_watcher_def hasattr_def registered_consistently_def contribute_to_class_def
                 Let_def connect_signals_frame signal_wiring_def)

text \<open>
  C6, as the code has it. For one cascade relation resolved by
  \<^verbatim>\<open>init_related_signals\<close>: a forward foreign key gets as back-reference name its
  related query name if the related type has such an attribute, and that name followed
  by \<^verbatim>\<open>_set\<close> otherwise. Whatever the shape of the relation, the step succeeds on a
  consistent registry: a related type without a policy gets the shadow policy (it
  requires a parent and has no tracked-field list), is added to the tracked set and
  has its five receivers connected at once; a related type with a policy keeps it, with
  the back-reference name appended to its notify relations.
\<close>

theorem relation_resolution:
  "(model_class self = Some cls \<longrightarrow>
      class_attrs (classes reg cls) attr_name = Some (ForwardRelation rm q) \<longrightarrow>
      resolve_relation self attr_name reg =
        Inr (rm, if hasattr (classes reg rm) q then q else q @ ''_set'')) \<and>
   (resolve_relation self attr_name reg = Inr (rm, back_reference) \<longrightarrow>
    registered_consistently reg rm \<longrightarrow>
      (\<exists>reg'. init_related_step self attr_name reg = Inr reg' \<and>
         (case audit (classes reg rm) of
            None \<Rightarrow>
              audit (classes reg' rm) = Some (shadow_policy rm back_reference) \<and>
              rm \<in> tracked_models reg' \<and>
              set (signal_wiring rm) \<subseteq> set (receivers reg')
          | Some a \<Rightarrow>
              audit (classes reg' rm) =
                Some (a\<lparr> notify_related :=
                    Some ((case notify_related a of None \<Rightarrow> [] | Some ns \<Rightarrow> ns) @ [back_reference]) \<rparr>) \<and>
              tracked_models reg' = tracked_models reg \<and>
              receivers reg' = receivers reg)))"
proof (intro conjI impI)
  assume "model_class self = Some cls"
     and "class_attrs (classes reg cls) attr_name = Some (ForwardRelation rm q)"
  then show "resolve_relation self attr_name reg =
        Inr (rm, if hasattr (classes reg rm) q then q else q @ ''_set'')"
    by (simp add: resolve_relation_def)
next
  assume r: "resolve_relation self attr_name reg = Inr (rm, back_reference)"
     and c: "registered_consistently reg rm"
  show "\<exists>reg'. init_related_step self attr_name reg = Inr reg' \<and>
         (case audit (classes reg rm) of
            None \<Rightarrow>
              audit (classes reg' rm) = Some (shadow_policy rm back_reference) \<and>
              rm \<in> tracked_models reg' \<and>
              set (signal_wiring rm) \<subseteq> set (receivers reg')
          | Some a \<Rightarrow>
              audit (classes reg' rm) =
                Some (a\<lparr> notify_related :=
                    Some ((case notify_related a of None \<Rightarrow> [] | Some ns \<Rightarrow> ns) @ [back_reference]) \<rparr>) \<and>
              tracked_models reg' = tracked_models reg \<and>
              receivers reg' = receivers reg)"
  proof (cases "audit (classes reg rm)")
    case None
    note e = ensure_watcher_unregistered [OF c None]
    from r e(1,2,3) None show ?thesis
      by (simp add: init_related_step_def add_notify_related_def shadow_policy_def
                    AuditTrailWatcher_def)
  next
    case (Some a)
    from r Some ensure_watcher_registered [OF c Some] show ?thesis
      by (simp add: init_related_step_def add_notify_related_def)
  qed
qed

lemmas registry_defs =
  blog_registry_def blog_classes_def post_class_def user_class_def comment_class_def
  blank_class_def tracking_post_watcher_def own_comment_watcher_def

theorem relation_resolution_witness:
  "model_class tracking_post_watcher = Some ''Post'' \<and>
   class_attrs (classes blog_registry ''Post'') ''author'' = Some (ForwardRelation ''User'' ''post'') \<and>
   \<not> hasattr (classes blog_registry ''User'') ''post'' \<and>
   resolve_relation tracking_post_watcher ''author'' blog_registry = Inr (''User'', ''post_set'') \<and>
   registered_consistently blog_registry ''User'' \<and>
   audit (classes blog_registry ''User'') = None \<and>
   (case init_related_step tracking_post_watcher ''author'' blog_registry of
      Inl e \<Rightarrow> False
    | Inr reg' \<Rightarrow>
        audit (classes reg' ''User'') = Some (shadow_policy ''User'' ''post_set'') \<and>
        ''User'' \<in> tracked_models reg' \<and>
        set (signal_wiring ''User'') \<subseteq> set (receivers reg')) \<and>
   resolve_relation tracking_post_watcher ''comment_set'' blog_registry = Inr (''Comment'', ''post'') \<and>
   registered_consistently blog_registry ''Comment'' \<and>
   (case init_related_step tracking_post_watcher ''comment_set'' blog_registry of
      Inl e \<Rightarrow> False
    | Inr reg' \<Rightarrow>
        notify_related (the (audit (classes reg' ''Comment''))) = Some [''author'', ''post''] \<and>
        receivers reg' = [])"
proof -
  have m: "model_class tracking_post_watcher = Some ''Post''"
    by (simp add: tracking_post_watcher_def)
  have f: "class_attrs (classes blog_registry ''Post'') ''author'' = Some (ForwardRelation ''User'' ''post'')"
    by (simp add: registry_defs)
  have h: "\<not> hasattr (classes blog_registry ''User'') ''post''"
    by (simp add: hasattr_def registry_defs)
  have cu: "registered_consistently blog_registry ''User''"
    by (simp add: registered_consistently_def registry_defs)
  have au: "audit (classes blog_registry ''User'') = None"
    by (simp add: registry_defs)
  have cc: "registered_consistently blog_registry ''Comment''"
    by (simp add: registered_consistently_def registry_defs)
  have ac: "audit (classes blog_registry ''Comment'') = Some own_comment_watcher"
    by (simp add: registry_defs)
  have nc: "notify_related own_comment_watcher = Some [''author'']"
    by (simp add: own_comment_watcher_def AuditTrailWatcher_def)
  have rc: "resolve_relation tracking_post_watcher ''comment_set'' blog_registry = Inr (''Comment'', ''post'')"
    by (simp add: resolve_relation_def registry_defs)
  have rb: "receivers blog_registry = []" by (simp add: blog_registry_def)
  note t1 = relation_resolution [of tracking_post_watcher "''Post''" blog_registry "''author''"
                                    "''User''" "''post''" "''post_set''"]
  from t1 m f h have ru: "resolve_relation tracking_post_watcher ''author'' blog_registry = Inr (''User'', ''post_set'')"
    by simp
  with t1 cu au have s1: "case init_related_step tracking_post_watcher ''author'' blog_registry of
      Inl e \<Rightarrow> False
    | Inr reg' \<Rightarrow>
        audit (classes reg' ''User'') = Some (shadow_policy ''User'' ''post_set'') \<and>
        ''User'' \<in> tracked_models reg' \<and>
        set (signal_wiring ''User'') \<subseteq> set (receivers reg')"
    by auto
  note t2 = relation_resolution [of tracking_post_watcher "''Post''" blog_registry "''comment_set''"
                                    "''Comment''" "''post''" "''post''"]
  from t2 rc cc ac nc rb have s2: "case init_related_step tracking_post_watcher ''comment_set'' blog_registry of
      Inl e \<Rightarrow> False
    | Inr reg' \<Rightarrow>
        notify_related (the (audit (classes reg' ''Comment''))) = Some [''author'', ''post''] \<and>
        receivers reg' = []"
    by auto
  from m f h ru cu au s1 rc cc s2 show ?thesis by blast
qed

text \<open>
  The claim of C6 fails where it says the shadow policy has no own tracked fields: its
  tracked-field list is unset, which \<^verbatim>\<open>serialize_object\<close> and \<^verbatim>\<open>get_changes\<close> read as
  "all fields". The shadow policy registered for \<^verbatim>\<open>User\<close> snapshots the name of a
  user, and the creation of a user who has a post records that field.
\<close>

theorem shadow_policy_tracks_fields_counterexample:
  "(case init_related_step tracking_post_watcher ''author'' blog_registry of
      Inl e \<Rightarrow> False
    | Inr reg' \<Rightarrow>
        (case audit (classes reg' ''User'') of
           None \<Rightarrow> False
         | Some shadow \<Rightarrow>
             track_only_with_related shadow \<and>
             fields' shadow = None \<and>
             serialize_object shadow user_model user_vals = [''name'' \<mapsto> PStr ''alice''] \<and>
             trails (on_post_save_create shadow user_model author_with_post True world_on) =
               [history_record Created (''User'', 1)
                  [''name'' \<mapsto> \<lparr> old_value = PNone, new_value = PStr ''alice'' \<rparr>],
                related_change 0 (''Post'', 3)]))"
proof -
  have s: "serialize_object (shadow_policy ''User'' ''post_set'') user_model user_vals =
             [''name'' \<mapsto> PStr ''alice'']"
    by (simp add: serialize_object_def shadow_policy_def user_model_def user_fields_def user_vals_def)
  have g: "get_changes (shadow_policy ''User'' ''post_set'') user_model (Some Map.empty)
             (Some [''name'' \<mapsto> PStr ''alice'']) =
           Inr [''name'' \<mapsto> \<lparr> old_value = PNone, new_value = PStr ''alice'' \<rparr>]"
    by (simp add: shadow_policy_def user_model_def user_fields_def differ_defs)
  have v: "vals author_with_post = user_vals" by (simp add: author_with_post_def)
  have n: "notify_related (shadow_policy ''User'' ''post_set'') = Some [''post_set'']"
    by (simp add: shadow_policy_def)
  have k: "skip_without_parent (shadow_policy ''User'' ''post_set'') author_with_post = Inr False"
    by (simp add: skip_without_parent_def is_parent_object_exists_def shadow_policy_def
                  author_with_post_def)
  have t: "trails (on_post_save_create (shadow_policy ''User'' ''post_set'') user_model author_with_post True world_on) =
               [history_record Created (''User'', 1)
                  [''name'' \<mapsto> \<lparr> old_value = PNone, new_value = PStr ''alice'' \<rparr>],
                related_change 0 (''Post'', 3)]"
  proof -
    have i: "ref author_with_post = (''User'', 1)"
            "attrs author_with_post = [''post_set'' \<mapsto> RelatedManager ''Post'' [3] [3]]"
      by (simp_all add: author_with_post_def)
    have o: "\<not> DISABLE_AUDIT_TRAIL world_on" "saved world_on = []"
      by (simp_all add: world_on_def)
    show ?thesis
      by (simp add: on_post_save_create_def k n s g v i o
                    create_related_audit_trail_def save_def generate_trail_def history_record_def
                    related_change_def Let_def)
  qed
  have a: "init_related_step tracking_post_watcher ''author'' blog_registry = Inr reg' \<Longrightarrow>
           audit (classes reg' ''User'') = Some (shadow_policy ''User'' ''post_set'')" for reg'
    by (auto simp: init_related_step_def resolve_relation_def add_notify_related_def ensure_watcher_def
                   contribute_to_class_def hasattr_def connect_signals_frame Let_def shadow_policy_def
                   AuditTrailWatcher_def registry_defs split: if_splits)
  have r: "\<exists>reg'. init_related_step tracking_post_watcher ''author'' blog_registry = Inr reg'"
    by (simp add: init_related_step_def resolve_relation_def add_notify_related_def ensure_watcher_def
                   contribute_to_class_def hasattr_def connect_signals_frame Let_def
                   registry_defs)
  then obtain reg' where i: "init_related_step tracking_post_watcher ''author'' blog_registry = Inr reg'"
    by blast
  from a [OF i] i s t show ?thesis by (simp add: shadow_policy_def)
qed

section \<open>Properties of deletion\<close>












end
